theory Spec2Isabelle
  imports Complex_Main "HOL-Library.AList" "HOL-Library.Sublist"
begin

section \<open>Python values, errors and the random generator\<close>

text \<open>
  Exceptions are values: every function that can raise returns \<open>error + 'a\<close>, with
  \<open>Inl\<close> the exception. \<open>ConfigurationMismatch\<close> is the configuration error of the
  iteration-budget check, \<open>AlgorithmFailure\<close> an exception raised inside a per-scale
  algorithm, which the fitter does not catch.
\<close>

datatype error =
    ValueError string
  | IndexError
  | TypeError
  | KeyError string
  | ZeroDivisionError
  | ConfigurationMismatch
  | AlgorithmFailure string

text \<open>
  Shapes are menpo point clouds. The perturbation code draws a translation with
  \<open>randn(2)\<close> and rotates with \<open>rotate_ccw_about_centre\<close>, so points are 2D; floats are
  modelled as reals.
\<close>

type_synonym point = "real \<times> real"
type_synonym shape = "point list"

text \<open>
  A Python \<open>str\<close> object. The source compares \<open>noise_type\<close> with \<open>is\<close>, which is object
  identity, so the model keeps identity apart from content: \<open>Interned s\<close> is the one
  interned object with characters \<open>s\<close> (every string literal of a program denotes it),
  \<open>Fresh n s\<close> is the \<open>n\<close>-th string object built at run time with the same kind of
  content (read from a file, joined, decoded, ...). Two descriptors denote the same
  object exactly when they are equal, so \<open>is\<close> is HOL equality and \<open>==\<close> compares the
  characters.
\<close>

datatype pystr = Interned string | Fresh nat string

fun str_chars :: "pystr \<Rightarrow> string" where
  "str_chars (Interned s) = s"
| "str_chars (Fresh n s) = s"

definition py_is :: "pystr \<Rightarrow> pystr \<Rightarrow> bool" where
  "py_is a b = (a = b)"

definition py_eq :: "pystr \<Rightarrow> pystr \<Rightarrow> bool" where
  "py_eq a b = (str_chars a = str_chars b)"

text \<open>
  numpy's global generator. \<open>normal_draws g j\<close> is the value the generator yields when
  its \<open>j\<close>-th variate is asked for as a standard normal (\<open>randn\<close>), \<open>uniform_draws g j\<close>
  when it is asked for as a uniform variate of \<open>[0, 1)\<close> (\<open>rand\<close>); \<open>position\<close> counts the
  variates drawn so far. The draws are inputs of the model.
\<close>

record rng =
  normal_draws :: "nat \<Rightarrow> real"
  uniform_draws :: "nat \<Rightarrow> real"
  position :: nat

definition randn :: "nat \<Rightarrow> rng \<Rightarrow> real list \<times> rng" where
  "randn k g =
     (map (\<lambda>i. normal_draws g (position g + i)) [0..<k], g\<lparr>position := position g + k\<rparr>)"

definition rand :: "nat \<Rightarrow> rng \<Rightarrow> real list \<times> rng" where
  "rand k g =
     (map (\<lambda>i. uniform_draws g (position g + i)) [0..<k], g\<lparr>position := position g + k\<rparr>)"

text \<open>\<open>np.asscalar\<close> of a one-element array is its element.\<close>

definition asscalar :: "real list \<Rightarrow> real" where
  "asscalar xs = hd xs"

text \<open>A two-element array as a pair (the argument always comes from \<open>randn(2)\<close> or \<open>rand(2)\<close>).\<close>

definition as_pair :: "real list \<Rightarrow> point" where
  "as_pair xs = (xs ! 0, xs ! 1)"

text \<open>Indexing a Python list with a non-negative index.\<close>

definition getitem :: "'a list \<Rightarrow> nat \<Rightarrow> error + 'a" where
  "getitem xs i = (if i < length xs then Inr (xs ! i) else Inl IndexError)"

text \<open>
  The interpreter state the perturbation code reads and writes: the heap of list objects
  (an address holds the list's elements) and the global generator. A \<open>noise_percentage\<close>
  argument is a float, an int (a scalar that is not a float) or a reference to a list
  object of the caller.
\<close>

record pystate =
  heap :: "nat \<Rightarrow> real list"
  np_random :: rng

datatype noise_percentage_arg = PFloat real | PInt int | PList nat

section \<open>menpo geometry\<close>

text \<open>
  A 2D homogeneous transform \<open>Homogeneous a b tx c d ty\<close> is the matrix with rows
  \<open>[a, b, tx]\<close>, \<open>[c, d, ty]\<close>, \<open>[0, 0, 1]\<close>. \<open>compose_after t u\<close> applies \<open>u\<close> first
  (the matrix product \<open>t \<cdot> u\<close>), \<open>compose_before t u\<close> applies \<open>t\<close> first.
\<close>

datatype transform = Homogeneous real real real real real real

fun compose_after :: "transform \<Rightarrow> transform \<Rightarrow> transform" where
  "compose_after (Homogeneous a b tx c d ty) (Homogeneous a' b' tx' c' d' ty') =
     Homogeneous (a * a' + b * c') (a * b' + b * d') (a * tx' + b * ty' + tx)
                 (c * a' + d * c') (c * b' + d * d') (c * tx' + d * ty' + ty)"

definition compose_before :: "transform \<Rightarrow> transform \<Rightarrow> transform" where
  "compose_before t u = compose_after u t"

fun apply_point :: "transform \<Rightarrow> point \<Rightarrow> point" where
  "apply_point (Homogeneous a b tx c d ty) (x, y) = (a * x + b * y + tx, c * x + d * y + ty)"

definition apply_transform :: "transform \<Rightarrow> shape \<Rightarrow> shape" where
  "apply_transform t s = map (apply_point t) s"

definition Translation :: "point \<Rightarrow> transform" where
  "Translation t = Homogeneous 1 0 (fst t) 0 1 (snd t)"

definition Scale :: "real \<Rightarrow> transform" where
  "Scale f = Homogeneous f 0 0 0 f 0"

text \<open>Counter-clockwise rotation by \<open>theta\<close> degrees.\<close>

definition Rotation_ccw :: "real \<Rightarrow> transform" where
  "Rotation_ccw theta =
     (let a = theta * pi / 180 in Homogeneous (cos a) (- sin a) 0 (sin a) (cos a) 0)"

text \<open>\<open>centre()\<close> is the mean point, \<open>range()\<close> the per-axis extent \<open>max - min\<close>.\<close>

definition centre :: "shape \<Rightarrow> point" where
  "centre s = (sum_list (map fst s) / real (length s), sum_list (map snd s) / real (length s))"

definition extent :: "real list \<Rightarrow> real" where
  "extent xs = fold max xs (hd xs) - fold min xs (hd xs)"

definition range_pc :: "shape \<Rightarrow> point" where
  "range_pc s = (extent (map fst s), extent (map snd s))"

definition transform_about_centre :: "shape \<Rightarrow> transform \<Rightarrow> transform" where
  "transform_about_centre obj t =
     compose_before
       (compose_before (Translation (- fst (centre obj), - snd (centre obj))) t)
       (Translation (centre obj))"

definition scale_about_centre :: "shape \<Rightarrow> real \<Rightarrow> transform" where
  "scale_about_centre obj s = transform_about_centre obj (Scale s)"

definition rotate_ccw_about_centre :: "shape \<Rightarrow> real \<Rightarrow> transform" where
  "rotate_ccw_about_centre obj theta = transform_about_centre obj (Rotation_ccw theta)"

section \<open>noisy_alignment_similarity_transform\<close>

text \<open>
  Lines 44-47. A float becomes a new three-element list, local to the call. Anything
  else is passed to \<open>len\<close>, which raises \<open>TypeError\<close> for an int. A list of length one is
  extended by \<open>*=\<close>, which for a list is in place: the caller's object at that address
  changes. The second component is the content of the list that \<open>noise_percentage\<close>
  names afterwards.
\<close>

definition broadcast_noise_percentage ::
  "pystate \<Rightarrow> noise_percentage_arg \<Rightarrow> pystate \<times> (error + real list)" where
  "broadcast_noise_percentage st np =
     (case np of
        PFloat p \<Rightarrow> (st, Inr [p, p, p])
      | PInt i \<Rightarrow> (st, Inl TypeError)
      | PList a \<Rightarrow>
          (let l = heap st a in
           if length l = 1
           then (st\<lparr>heap := (heap st)(a := l @ l @ l)\<rparr>, Inr (l @ l @ l))
           else (st, Inr l)))"

text \<open>
  Lines 52-54, the raw perturbations of the gaussian branch: scale, rotation in degrees
  and translation, in the order the source evaluates them.
\<close>

definition gaussian_parameters ::
  "real list \<Rightarrow> shape \<Rightarrow> rng \<Rightarrow> rng \<times> (error + real \<times> real \<times> point)" where
  "gaussian_parameters pct target g0 =
     (case getitem pct 0 of Inl e \<Rightarrow> (g0, Inl e) | Inr p0 \<Rightarrow>
        (case randn 1 g0 of (d1, g1) \<Rightarrow>
        (case getitem pct 1 of Inl e \<Rightarrow> (g1, Inl e) | Inr p1 \<Rightarrow>
        (case randn 1 g1 of (d2, g2) \<Rightarrow>
        (case getitem pct 2 of Inl e \<Rightarrow> (g2, Inl e) | Inr p2 \<Rightarrow>
        (case randn 2 g2 of (d3, g3) \<Rightarrow>
           (g3, Inr (p0 * (0.5 / 3) * asscalar d1,
                     p1 * (180 / 3) * asscalar d2,
                     (p2 * (fst (range_pc target) / 3) * fst (as_pair d3),
                      p2 * (snd (range_pc target) / 3) * snd (as_pair d3))))))))))"

text \<open>Lines 60-62, the raw perturbations of the uniform branch.\<close>

definition uniform_parameters ::
  "real list \<Rightarrow> shape \<Rightarrow> rng \<Rightarrow> rng \<times> (error + real \<times> real \<times> point)" where
  "uniform_parameters pct target g0 =
     (case getitem pct 0 of Inl e \<Rightarrow> (g0, Inl e) | Inr p0 \<Rightarrow>
        (case randn 1 g0 of (d1, g1) \<Rightarrow>
        (case getitem pct 1 of Inl e \<Rightarrow> (g1, Inl e) | Inr p1 \<Rightarrow>
        (case rand 1 g1 of (d2, g2) \<Rightarrow>
        (case getitem pct 2 of Inl e \<Rightarrow> (g2, Inl e) | Inr p2 \<Rightarrow>
        (case rand 2 g2 of (d3, g3) \<Rightarrow>
           (g3, Inr (p0 * 0.5 * (2 * asscalar d1 - 1),
                     p1 * 180 * (2 * asscalar d2 - 1),
                     (p2 * fst (range_pc target) * (2 * fst (as_pair d3) - 1),
                      p2 * snd (range_pc target) * (2 * snd (as_pair d3) - 1))))))))))"

text \<open>
  Lines 56-58, 64-66 and 71: the three perturbations as transforms about the target's
  centre, composed after one another and under the optimal alignment.
\<close>

definition perturb_similarity ::
  "transform \<Rightarrow> shape \<Rightarrow> real \<times> real \<times> point \<Rightarrow> transform" where
  "perturb_similarity similarity target srt =
     (case srt of (s0, r0, t0) \<Rightarrow>
        (let s = scale_about_centre target (1 + s0);
             r = rotate_ccw_about_centre target r0;
             t = Translation t0
         in compose_after similarity (compose_after t (compose_after s r))))"

text \<open>
  The function. \<open>AlignmentSimilarity\<close>, menpo's optimal similarity alignment of two
  shapes, is a parameter. The two tests on \<open>noise_type\<close> are identity tests against the
  literals of the module.
\<close>

definition noisy_alignment_similarity_transform ::
  "(shape \<Rightarrow> shape \<Rightarrow> bool \<Rightarrow> transform) \<Rightarrow> pystate \<Rightarrow> shape \<Rightarrow> shape \<Rightarrow> pystr \<Rightarrow>
   noise_percentage_arg \<Rightarrow> bool \<Rightarrow> pystate \<times> (error + transform)" where
  "noisy_alignment_similarity_transform AlignmentSimilarity st source target noise_type
       noise_percentage rotation =
     (case broadcast_noise_percentage st noise_percentage of
        (st1, Inl e) \<Rightarrow> (st1, Inl e)
      | (st1, Inr pct) \<Rightarrow>
        (let similarity = AlignmentSimilarity source target rotation in
         if py_is noise_type (Interned ''gaussian'') then
           (case gaussian_parameters pct target (np_random st1) of
              (g, Inl e) \<Rightarrow> (st1\<lparr>np_random := g\<rparr>, Inl e)
            | (g, Inr srt) \<Rightarrow>
                (st1\<lparr>np_random := g\<rparr>, Inr (perturb_similarity similarity target srt)))
         else if py_is noise_type (Interned ''uniform'') then
           (case uniform_parameters pct target (np_random st1) of
              (g, Inl e) \<Rightarrow> (st1\<lparr>np_random := g\<rparr>, Inl e)
            | (g, Inr srt) \<Rightarrow>
                (st1\<lparr>np_random := g\<rparr>, Inr (perturb_similarity similarity target srt)))
         else
           (st1, Inl (ValueError
              ''Unexpected noise type. Supported values are {gaussian, uniform}''))))"

section \<open>Images and landmark groups\<close>

text \<open>
  An image carries a mapping of named landmark groups. The mapping is an association
  list with distinct keys, in insertion order, as a Python dict: assigning to a key that
  is present replaces its value in place, assigning to a new key appends it
  (\<open>AList.update\<close>). A landmark group is modelled by its point cloud (\<open>.lms\<close>). The pixel
  data is opaque; \<open>height\<close> and \<open>width\<close> are the image bounds.
\<close>

type_synonym landmark_manager = "(string \<times> shape) list"

record image =
  pixels :: nat
  height :: real
  width :: real
  landmarks :: landmark_manager

text \<open>
  \<open>landmarks[group]\<close>. menpo accepts \<open>None\<close> as the group when the image has exactly one
  group, and raises otherwise.
\<close>

definition landmarks_getitem :: "landmark_manager \<Rightarrow> string option \<Rightarrow> error + shape" where
  "landmarks_getitem lm grp =
     (case grp of
        None \<Rightarrow>
          (case lm of
             [kv] \<Rightarrow> Inr (snd kv)
           | _ \<Rightarrow> Inl (ValueError ''Cannot use None as a key: not exactly one landmark group''))
      | Some k \<Rightarrow> (case map_of lm k of None \<Rightarrow> Inl (KeyError k) | Some v \<Rightarrow> Inr v))"

definition landmarks_setitem :: "landmark_manager \<Rightarrow> string \<Rightarrow> shape \<Rightarrow> landmark_manager" where
  "landmarks_setitem lm k v = AList.update k v lm"

definition landmarks_delitem :: "landmark_manager \<Rightarrow> string \<Rightarrow> error + landmark_manager" where
  "landmarks_delitem lm k =
     (case map_of lm k of None \<Rightarrow> Inl (KeyError k) | Some v \<Rightarrow> Inr (AList.delete k lm))"

section \<open>MultiFitter\<close>

text \<open>
  What a fitter reads from itself and its model: the scale factors, the holistic feature
  functions (each with the identity of the function object, which line 339 compares
  with \<open>is not\<close>), the reference shape, and the per-scale algorithms. An algorithm's \<open>run\<close>
  takes the image, the initial shape, the ground truth shape and the iteration budget;
  its result exposes \<open>final_shape\<close>.
\<close>

record algorithm_result =
  final_shape :: shape
  n_iters :: int

type_synonym algorithm = "image \<Rightarrow> shape \<Rightarrow> shape option \<Rightarrow> int \<Rightarrow> error + algorithm_result"

type_synonym feature = "nat \<times> (image \<Rightarrow> image)"

record fitter =
  scales :: "real list"
  holistic_features :: "feature list"
  reference_shape :: shape
  algorithms :: "algorithm list"

definition n_scales :: "fitter \<Rightarrow> nat" where
  "n_scales f = length (scales f)"

text \<open>The image operations of menpo that \<open>_prepare_image\<close> calls; each returns a new image.\<close>

record image_ops =
  crop_to_landmarks_proportion :: "real \<Rightarrow> string \<Rightarrow> image \<Rightarrow> image"
  rescale_to_pointcloud :: "shape \<Rightarrow> string \<Rightarrow> image \<Rightarrow> image"
  rescale :: "real \<Rightarrow> image \<Rightarrow> image"

text \<open>
  Lines 337-353, the loop over \<open>range(n_scales)\<close>, run on the list of indices still to
  do. \<open>feature_image\<close> is the loop's variable of that name; it is assigned in the first
  pass (\<open>i == 0\<close>) before it is read.
\<close>

fun pyramid_loop ::
  "image_ops \<Rightarrow> fitter \<Rightarrow> image \<Rightarrow> nat list \<Rightarrow> image \<Rightarrow> image list \<Rightarrow> error + image list" where
  "pyramid_loop ops f tmp_image [] feature_image images = Inr images"
| "pyramid_loop ops f tmp_image (i # rest) feature_image images =
     (case (if i = 0 then Inr True
            else (case getitem (holistic_features f) i of
                    Inl e \<Rightarrow> Inl e
                  | Inr h \<Rightarrow> Inr (fst h \<noteq> fst (holistic_features f ! (i - 1))))) of
        Inl e \<Rightarrow> Inl e
      | Inr recompute \<Rightarrow>
          (case (if recompute
                 then (case getitem (holistic_features f) i of
                         Inl e \<Rightarrow> Inl e
                       | Inr h \<Rightarrow> Inr (snd h tmp_image))
                 else Inr feature_image) of
             Inl e \<Rightarrow> Inl e
           | Inr feature_image' \<Rightarrow>
               (case getitem (scales f) i of
                  Inl e \<Rightarrow> Inl e
                | Inr sc \<Rightarrow>
                    pyramid_loop ops f tmp_image rest feature_image'
                      (images @ [if sc \<noteq> 1 then rescale ops sc feature_image'
                                 else feature_image']))))"

text \<open>A list comprehension \<open>[i.landmarks[group].lms for i in images]\<close>.\<close>

fun shapes_of_group :: "string \<Rightarrow> image list \<Rightarrow> error + shape list" where
  "shapes_of_group grp [] = Inr []"
| "shapes_of_group grp (i # rest) =
     (case landmarks_getitem (landmarks i) (Some grp) of
        Inl e \<Rightarrow> Inl e
      | Inr s \<Rightarrow>
          (case shapes_of_group grp rest of Inl e \<Rightarrow> Inl e | Inr ss \<Rightarrow> Inr (s # ss)))"

text \<open>
  \<open>_prepare_image\<close>, lines 317-369. The first component of the result is the caller's
  image object after the call: the call mutates its landmark mapping. \<open>gt_shape\<close> and
  \<open>crop_image\<close> are tested for truth: a shape object is true, \<open>None\<close> is false, and a
  float is true when it is not zero.
\<close>

definition prepare_image ::
  "image_ops \<Rightarrow> fitter \<Rightarrow> image \<Rightarrow> shape \<Rightarrow> shape option \<Rightarrow> real option \<Rightarrow>
   image \<times> (error + image list \<times> shape list \<times> shape list option)" where
  "prepare_image ops f image0 initial_shape gt_shape crop_image =
     (let image1 = image0\<lparr>landmarks :=
                     landmarks_setitem (landmarks image0) ''__initial_shape'' initial_shape\<rparr>;
          image2 = (case gt_shape of
                      None \<Rightarrow> image1
                    | Some g \<Rightarrow>
                        image1\<lparr>landmarks := landmarks_setitem (landmarks image1) ''__gt_shape'' g\<rparr>);
          tmp_image0 = (case crop_image of
                          None \<Rightarrow> image2
                        | Some c \<Rightarrow>
                            if c \<noteq> 0
                            then crop_to_landmarks_proportion ops c ''__initial_shape'' image2
                            else image2);
          tmp_image = rescale_to_pointcloud ops (reference_shape f) ''__initial_shape'' tmp_image0
      in case pyramid_loop ops f tmp_image [0..<n_scales f] tmp_image [] of
           Inl e \<Rightarrow> (image2, Inl e)
         | Inr images \<Rightarrow>
             (case shapes_of_group ''__initial_shape'' images of
                Inl e \<Rightarrow> (image2, Inl e)
              | Inr initial_shapes \<Rightarrow>
                  (case (case gt_shape of
                           None \<Rightarrow> Inr None
                         | Some g \<Rightarrow>
                             (case shapes_of_group ''__gt_shape'' images of
                                Inl e \<Rightarrow> Inl e
                              | Inr gs \<Rightarrow> Inr (Some gs))) of
                     Inl e \<Rightarrow> (image2, Inl e)
                   | Inr gt_shapes \<Rightarrow>
                       (case landmarks_delitem (landmarks image2) ''__initial_shape'' of
                          Inl e \<Rightarrow> (image2, Inl e)
                        | Inr lm3 \<Rightarrow>
                            (case (case gt_shape of
                                     None \<Rightarrow> Inr lm3
                                   | Some g \<Rightarrow> landmarks_delitem lm3 ''__gt_shape'') of
                               Inl e \<Rightarrow> (image2\<lparr>landmarks := lm3\<rparr>, Inl e)
                             | Inr lm4 \<Rightarrow>
                                 (image2\<lparr>landmarks := lm4\<rparr>,
                                  Inr (images, initial_shapes, gt_shapes)))))))"

text \<open>
  The iteration budget: \<open>max_iters\<close> is an \<open>int\<close> or a \<open>list\<close> of \<open>int\<close>.
\<close>

datatype max_iters_arg = MaxItersInt int | MaxItersList "int list"

text \<open>
  Modelled from the spec: \<open>checks.check_max_iters\<close> (module \<open>menpofit.checks\<close>), which
  \<open>_fit\<close> calls on line 374. The spec: a scalar is broadcast to all scales; a list must
  have exactly \<open>n_scales\<close> entries, else the call fails with a configuration error.
\<close>

definition check_max_iters :: "max_iters_arg \<Rightarrow> nat \<Rightarrow> error + int list" where
  "check_max_iters max_iters n =
     (case max_iters of
        MaxItersInt k \<Rightarrow> Inr (replicate n k)
      | MaxItersList l \<Rightarrow> if length l = n then Inr l else Inl ConfigurationMismatch)"

text \<open>
  One invocation of an algorithm's \<open>run\<close>, as the trace of a fit records it: the scale
  index and the arguments passed.
\<close>

record run_call =
  call_scale :: nat
  call_image :: image
  call_shape :: shape
  call_gt_shape :: "shape option"
  call_max_iters :: int

text \<open>
  Lines 395-399: this scale's final shape, prepared for the next scale. \<open>scales[-1]\<close> is
  the last scale factor; the division raises when \<open>scales[i]\<close> is zero.
\<close>

definition next_scale_shape :: "fitter \<Rightarrow> nat \<Rightarrow> shape \<Rightarrow> error + shape" where
  "next_scale_shape f i shape0 =
     (case getitem (scales f) i of
        Inl e \<Rightarrow> Inl e
      | Inr sc \<Rightarrow>
          if sc \<noteq> last (scales f) then
            (case getitem (scales f) (i + 1) of
               Inl e \<Rightarrow> Inl e
             | Inr sc_next \<Rightarrow>
                 if sc = 0 then Inl ZeroDivisionError
                 else Inr (apply_transform (Scale (sc_next / sc)) shape0))
          else Inr shape0)"

text \<open>
  Lines 382-399, the loop over \<open>range(n_scales)\<close>, run on the list of indices still to
  do. The state is the loop's \<open>shape\<close>, the list \<open>algorithm_results\<close> and the trace of
  the runs made so far; the trace is returned also when the loop raises.
\<close>

fun fit_loop ::
  "fitter \<Rightarrow> image list \<Rightarrow> shape list option \<Rightarrow> int list \<Rightarrow> nat list \<Rightarrow>
   shape \<times> algorithm_result list \<times> run_call list \<Rightarrow>
   run_call list \<times> (error + shape \<times> algorithm_result list)" where
  "fit_loop f images gt_shapes max_iters [] (shape0, algorithm_results, calls) =
     (calls, Inr (shape0, algorithm_results))"
| "fit_loop f images gt_shapes max_iters (i # rest) (shape0, algorithm_results, calls) =
     (case (case gt_shapes of
              None \<Rightarrow> Inr None
            | Some gs \<Rightarrow> (case getitem gs i of Inl e \<Rightarrow> Inl e | Inr g \<Rightarrow> Inr (Some g))) of
        Inl e \<Rightarrow> (calls, Inl e)
      | Inr gt_shape \<Rightarrow>
          (case getitem (algorithms f) i of
             Inl e \<Rightarrow> (calls, Inl e)
           | Inr algorithm \<Rightarrow>
               (case getitem images i of
                  Inl e \<Rightarrow> (calls, Inl e)
                | Inr image_i \<Rightarrow>
                    (case getitem max_iters i of
                       Inl e \<Rightarrow> (calls, Inl e)
                     | Inr budget \<Rightarrow>
                         (let calls' = calls @
                                [\<lparr>call_scale = i, call_image = image_i, call_shape = shape0,
                                  call_gt_shape = gt_shape, call_max_iters = budget\<rparr>]
                          in case algorithm image_i shape0 gt_shape budget of
                               Inl e \<Rightarrow> (calls', Inl e)
                             | Inr algorithm_result \<Rightarrow>
                                 (case next_scale_shape f i (final_shape algorithm_result) of
                                    Inl e \<Rightarrow> (calls', Inl e)
                                  | Inr shape' \<Rightarrow>
                                      fit_loop f images gt_shapes max_iters rest
                                        (shape', algorithm_results @ [algorithm_result],
                                         calls')))))))"

text \<open>\<open>_fit\<close>, lines 371-402: the trace of the runs and the list of algorithm results.\<close>

definition fit ::
  "fitter \<Rightarrow> image list \<Rightarrow> shape \<Rightarrow> shape list option \<Rightarrow> max_iters_arg \<Rightarrow>
   run_call list \<times> (error + algorithm_result list)" where
  "fit f images initial_shape gt_shapes max_iters =
     (case check_max_iters max_iters (n_scales f) of
        Inl e \<Rightarrow> ([], Inl e)
      | Inr budgets \<Rightarrow>
          (case fit_loop f images gt_shapes budgets [0..<n_scales f] (initial_shape, [], []) of
             (calls, Inl e) \<Rightarrow> (calls, Inl e)
           | (calls, Inr (shape0, algorithm_results)) \<Rightarrow> (calls, Inr algorithm_results)))"

text \<open>
  \<open>fit_from_shape\<close>, lines 255-272: the caller's image after the call, the trace of the
  runs, and the result. \<open>AlignmentAffine\<close> and the subclass's \<open>_fitter_result\<close> are
  parameters. \<open>initial_shapes[-1]\<close> and \<open>initial_shapes[0]\<close> raise on an empty list.
\<close>

definition fit_from_shape ::
  "image_ops \<Rightarrow> (shape \<Rightarrow> shape \<Rightarrow> transform) \<Rightarrow>
   (image \<Rightarrow> algorithm_result list \<Rightarrow> transform \<Rightarrow> shape option \<Rightarrow> 'r) \<Rightarrow>
   fitter \<Rightarrow> image \<Rightarrow> shape \<Rightarrow> max_iters_arg \<Rightarrow> shape option \<Rightarrow> real option \<Rightarrow>
   image \<times> run_call list \<times> (error + 'r)" where
  "fit_from_shape ops AlignmentAffine fitter_result f image0 initial_shape max_iters gt_shape
       crop_image =
     (case prepare_image ops f image0 initial_shape gt_shape crop_image of
        (image', Inl e) \<Rightarrow> (image', [], Inl e)
      | (image', Inr (images, initial_shapes, gt_shapes)) \<Rightarrow>
          (if initial_shapes = [] then (image', [], Inl IndexError)
           else
             (let affine_correction = AlignmentAffine (last initial_shapes) initial_shape
              in case fit f images (hd initial_shapes) gt_shapes max_iters of
                   (calls, Inl e) \<Rightarrow> (image', calls, Inl e)
                 | (calls, Inr algorithm_results) \<Rightarrow>
                     (image', calls,
                      Inr (fitter_result image' algorithm_results affine_correction
                             gt_shape)))))"

section \<open>generate_perturbations_from_gt\<close>

text \<open>
  \<open>'{}'.format(k)\<close> for a counter \<open>k\<close>, which is never negative: its decimal digits.
\<close>

definition digit_char :: "nat \<Rightarrow> char" where
  "digit_char d = ''0123456789'' ! d"

fun str_nat :: "nat \<Rightarrow> string" where
  "str_nat n = (if n < 10 then [digit_char n] else str_nat (n div 10) @ [digit_char (n mod 10)])"

declare str_nat.simps [simp del]

text \<open>\<open>'__generated_bb_{}'.format(k)\<close>, lines 542 and 547.\<close>

definition gen_name :: "nat \<Rightarrow> string" where
  "gen_name k = ''__generated_bb_'' @ str_nat k"

text \<open>
  \<open>landmarks.items_matching(glob)\<close> of menpo: the items of the mapping, in its order, whose
  key matches the glob, taken from the mapping as it is when the iteration starts. The
  matching predicate \<open>fnmatch.fnmatch(key, glob)\<close> is a parameter.
\<close>

definition items_matching ::
  "(string \<Rightarrow> string \<Rightarrow> bool) \<Rightarrow> landmark_manager \<Rightarrow> string \<Rightarrow> (string \<times> shape) list" where
  "items_matching fnmatch lm glob = filter (\<lambda>kv. fnmatch (fst kv) glob) lm"

text \<open>
  \<open>PointCloud.bounding_box()\<close> of menpo: the four corners of the axis-aligned box around
  the points; taking the bounds of no points raises.
\<close>

definition bounding_box :: "shape \<Rightarrow> error + shape" where
  "bounding_box s =
     (if s = [] then Inl (ValueError ''zero-size array to reduction operation'')
      else
        (let ys = map fst s; xs = map snd s;
             min_y = fold min ys (hd ys); max_y = fold max ys (hd ys);
             min_x = fold min xs (hd xs); max_x = fold max xs (hd xs)
         in Inr [(min_y, min_x), (max_y, min_x), (max_y, max_x), (min_y, max_x)]))"

text \<open>
  \<open>Image.has_landmarks_outside_bounds\<close> and \<open>Image.constrain_landmarks_to_bounds()\<close> of
  menpo: a point is inside when each coordinate is at least 0 and at most the extent of
  the image along that axis minus 1; constraining clamps every coordinate of every
  landmark group to that interval and keeps the groups' names and order.
\<close>

definition has_landmarks_outside_bounds :: "image \<Rightarrow> bool" where
  "has_landmarks_outside_bounds im =
     list_ex (\<lambda>kv. list_ex (\<lambda>p. fst p < 0 \<or> snd p < 0 \<or>
                                  height im - fst p < 1 \<or> width im - snd p < 1) (snd kv))
       (landmarks im)"

definition clamp :: "real \<Rightarrow> real \<Rightarrow> real" where
  "clamp bound x = (let t = (if x < 0 then 0 else x) in if t > bound - 1 then bound - 1 else t)"

definition constrain_landmarks_to_bounds :: "image \<Rightarrow> image" where
  "constrain_landmarks_to_bounds im =
     im\<lparr>landmarks :=
          map (\<lambda>kv. (fst kv, map (\<lambda>p. (clamp (height im) (fst p), clamp (width im) (snd p)))
                                (snd kv)))
            (landmarks im)\<rparr>"


text \<open>
  The perturbation function is a parameter; it may draw random numbers, so it takes and
  returns the state it works on.
\<close>

type_synonym 'st perturb_func = "shape \<Rightarrow> shape \<Rightarrow> 'st \<Rightarrow> 'st \<times> (error + shape)"

text \<open>
  Lines 540-544, the loop \<open>for _ in range(n_perturbations)\<close>, run on the number of passes
  still to do. The state is the image's landmark mapping, the counter \<open>k\<close> and the state of
  the perturbation function.
\<close>

fun perturbations_loop ::
  "'st perturb_func \<Rightarrow> shape \<Rightarrow> shape \<Rightarrow> nat \<Rightarrow> landmark_manager \<times> nat \<times> 'st \<Rightarrow>
   (landmark_manager \<times> nat \<times> 'st) \<times> (error + unit)" where
  "perturbations_loop perturb_func gt_s bb 0 (lm, k, st) = ((lm, k, st), Inr ())"
| "perturbations_loop perturb_func gt_s bb (Suc n) (lm, k, st) =
     (case perturb_func gt_s bb st of
        (st', Inl e) \<Rightarrow> ((lm, k, st'), Inl e)
      | (st', Inr p) \<Rightarrow>
          (case bounding_box p of
             Inl e \<Rightarrow> ((lm, k, st'), Inl e)
           | Inr p_s \<Rightarrow>
               perturbations_loop perturb_func gt_s bb n
                 (landmarks_setitem lm (gen_name k) p_s, k + 1, st')))"

text \<open>
  Lines 539-548, the loop \<open>for bb in bb_generator(im)\<close>, run on the boxes still to come.
  A box of the glob's generator is computed when the loop reaches it, and computing it
  may raise.
\<close>

fun boxes_loop ::
  "'st perturb_func \<Rightarrow> int \<Rightarrow> shape \<Rightarrow> string option \<Rightarrow> (error + shape) list \<Rightarrow>
   landmark_manager \<times> nat \<times> 'st \<Rightarrow> (landmark_manager \<times> nat \<times> 'st) \<times> (error + unit)" where
  "boxes_loop perturb_func n_perturbations gt_s bb_group_glob [] s = (s, Inr ())"
| "boxes_loop perturb_func n_perturbations gt_s bb_group_glob (b # rest) s =
     (case b of
        Inl e \<Rightarrow> (s, Inl e)
      | Inr bb \<Rightarrow>
          (case perturbations_loop perturb_func gt_s bb (nat n_perturbations) s of
             (s', Inl e) \<Rightarrow> (s', Inl e)
           | ((lm, k, st), Inr u) \<Rightarrow>
               boxes_loop perturb_func n_perturbations gt_s bb_group_glob rest
                 (if bb_group_glob \<noteq> None
                  then (landmarks_setitem lm (gen_name k) bb, k + 1, st)
                  else (lm, k, st))))"

text \<open>
  \<open>bb_generator(im)\<close>, lines 508-515: the list of one box, or the generator \<open>bb_glob(im)\<close>.
\<close>

definition bb_generator ::
  "(string \<Rightarrow> string \<Rightarrow> bool) \<Rightarrow> string option \<Rightarrow> string option \<Rightarrow> image \<Rightarrow>
   error + (error + shape) list" where
  "bb_generator fnmatch gt_group bb_group_glob im =
     (case bb_group_glob of
        None \<Rightarrow>
          (case landmarks_getitem (landmarks im) gt_group of
             Inl e \<Rightarrow> Inl e
           | Inr s \<Rightarrow> (case bounding_box s of Inl e \<Rightarrow> Inl e | Inr bb \<Rightarrow> Inr [Inr bb]))
      | Some g \<Rightarrow>
          Inr (map (\<lambda>kv. bounding_box (snd kv)) (items_matching fnmatch (landmarks im) g)))"

text \<open>\<open>list(generator)\<close>: all the elements, or the first error met.\<close>

fun list_of_generator :: "(error + 'a) list \<Rightarrow> error + 'a list" where
  "list_of_generator [] = Inr []"
| "list_of_generator (x # rest) =
     (case x of
        Inl e \<Rightarrow> Inl e
      | Inr v \<Rightarrow> (case list_of_generator rest of Inl e \<Rightarrow> Inl e | Inr vs \<Rightarrow> Inr (v # vs)))"

text \<open>
  Lines 535-551, the body of the loop over the images, for one image: the image and the
  state of the perturbation function after the pass, and whether the pass raised.
\<close>

definition perturb_image ::
  "'st perturb_func \<Rightarrow> (string \<Rightarrow> string \<Rightarrow> bool) \<Rightarrow> int \<Rightarrow> string option \<Rightarrow> string option \<Rightarrow>
   image \<Rightarrow> 'st \<Rightarrow> (image \<times> 'st) \<times> (error + unit)" where
  "perturb_image perturb_func fnmatch n_perturbations gt_group bb_group_glob im st =
     (case landmarks_getitem (landmarks im) gt_group of
        Inl e \<Rightarrow> ((im, st), Inl e)
      | Inr s \<Rightarrow>
          (case bounding_box s of
             Inl e \<Rightarrow> ((im, st), Inl e)
           | Inr gt_s \<Rightarrow>
               (case bb_generator fnmatch gt_group bb_group_glob im of
                  Inl e \<Rightarrow> ((im, st), Inl e)
                | Inr bbs \<Rightarrow>
                    (case boxes_loop perturb_func n_perturbations gt_s bb_group_glob bbs
                            (landmarks im, 0, st) of
                       ((lm, k, st'), Inl e) \<Rightarrow> ((im\<lparr>landmarks := lm\<rparr>, st'), Inl e)
                     | ((lm, k, st'), Inr u) \<Rightarrow>
                         (let im' = im\<lparr>landmarks := lm\<rparr>
                          in ((if has_landmarks_outside_bounds im'
                               then constrain_landmarks_to_bounds im' else im', st'),
                              Inr ()))))))"

text \<open>Lines 534-551, the loop \<open>for im in wrap(images)\<close>, run on the images still to do.\<close>

fun images_loop ::
  "'st perturb_func \<Rightarrow> (string \<Rightarrow> string \<Rightarrow> bool) \<Rightarrow> int \<Rightarrow> string option \<Rightarrow> string option \<Rightarrow>
   image list \<Rightarrow> 'st \<Rightarrow> (image list \<times> 'st) \<times> (error + unit)" where
  "images_loop perturb_func fnmatch n_perturbations gt_group bb_group_glob [] st =
     (([], st), Inr ())"
| "images_loop perturb_func fnmatch n_perturbations gt_group bb_group_glob (im # rest) st =
     (case perturb_image perturb_func fnmatch n_perturbations gt_group bb_group_glob im st of
        ((im', st'), Inl e) \<Rightarrow> ((im' # rest, st'), Inl e)
      | ((im', st'), Inr u) \<Rightarrow>
          (case images_loop perturb_func fnmatch n_perturbations gt_group bb_group_glob rest st'
           of ((rest', st''), r) \<Rightarrow> ((im' # rest', st''), r)))"

text \<open>
  \<open>generate_perturbations_from_gt\<close>, lines 481-555: the images and the state of the
  perturbation function after the call, and whether the call raised. The progress
  message and \<open>verbose\<close> are left out. The function returned is \<open>generated_bb_func\<close> below.
\<close>

definition generate_perturbations_from_gt ::
  "'st perturb_func \<Rightarrow> (string \<Rightarrow> string \<Rightarrow> bool) \<Rightarrow> image list \<Rightarrow> int \<Rightarrow> string option \<Rightarrow>
   string option \<Rightarrow> 'st \<Rightarrow> (image list \<times> 'st) \<times> (error + unit)" where
  "generate_perturbations_from_gt perturb_func fnmatch images n_perturbations gt_group
       bb_group_glob st =
     (case (case bb_group_glob of
              None \<Rightarrow> Inr 1
            | Some g \<Rightarrow>
                (case getitem images 0 of
                   Inl e \<Rightarrow> Inl e
                 | Inr im0 \<Rightarrow>
                     (case bb_generator fnmatch gt_group bb_group_glob im0 of
                        Inl e \<Rightarrow> Inl e
                      | Inr gen \<Rightarrow>
                          (case list_of_generator gen of
                             Inl e \<Rightarrow> Inl e
                           | Inr bbs \<Rightarrow> Inr (length bbs))))) of
        Inl e \<Rightarrow> ((images, st), Inl e)
      | Inr n_bbs \<Rightarrow>
          if n_bbs = 0
          then ((images, st),
                Inl (ValueError
                  (''Must provide a valid bounding box glob - no bounding boxes matched the following glob: ''
                   @ (case bb_group_glob of None \<Rightarrow> ''None'' | Some g \<Rightarrow> g))))
          else images_loop perturb_func fnmatch n_perturbations gt_group bb_group_glob images st)"



section \<open>Concrete inputs\<close>

text \<open>Inputs at which the theorems below are evaluated.\<close>

definition identity_alignment :: "shape \<Rightarrow> shape \<Rightarrow> bool \<Rightarrow> transform" where
  "identity_alignment source target rotation = Homogeneous 1 0 0 0 1 0"

definition constant_rng :: "real \<Rightarrow> real \<Rightarrow> rng" where
  "constant_rng n u = \<lparr>normal_draws = (\<lambda>j. n), uniform_draws = (\<lambda>j. u), position = 0\<rparr>"

definition example_state :: "real list \<Rightarrow> pystate" where
  "example_state l = \<lparr>heap = (\<lambda>a. if a = 0 then l else []), np_random = constant_rng 1 0\<rparr>"

definition unit_square :: shape where
  "unit_square = [(0, 0), (0, 1), (1, 1), (1, 0)]"

definition box_3_6 :: shape where
  "box_3_6 = [(0, 0), (0, 6), (3, 6), (3, 0)]"

text \<open>
  A two-scale fitter on stand-in image operations: cropping and rescaling to the reference
  shape leave the image as it is, \<open>rescale\<close> scales the bounds and every landmark group,
  and each algorithm returns its initial shape after spending the budget it is given.
\<close>

definition example_ops :: image_ops where
  "example_ops =
     \<lparr>crop_to_landmarks_proportion = (\<lambda>c g im. im),
      rescale_to_pointcloud = (\<lambda>s g im. im),
      rescale = (\<lambda>sc im. im\<lparr>height := sc * height im, width := sc * width im,
                   landmarks := map (\<lambda>kv. (fst kv, apply_transform (Scale sc) (snd kv)))
                                  (landmarks im)\<rparr>)\<rparr>"

definition example_algorithm :: algorithm where
  "example_algorithm im s gt budget = Inr \<lparr>final_shape = s, n_iters = budget\<rparr>"

definition example_fitter :: fitter where
  "example_fitter =
     \<lparr>scales = [1/2, 1], holistic_features = [(0, \<lambda>im. im), (0, \<lambda>im. im)],
      reference_shape = unit_square, algorithms = [example_algorithm, example_algorithm]\<rparr>"

definition example_image :: image where
  "example_image = \<lparr>pixels = 0, height = 10, width = 10, landmarks = [(''PTS'', box_3_6)]\<rparr>"

definition example_affine :: "shape \<Rightarrow> shape \<Rightarrow> transform" where
  "example_affine source target = Homogeneous 1 0 0 0 1 0"

definition example_result ::
  "image \<Rightarrow> algorithm_result list \<Rightarrow> transform \<Rightarrow> shape option \<Rightarrow> shape list" where
  "example_result im rs t gt = map final_shape rs"

definition example_iters ::
  "image \<Rightarrow> algorithm_result list \<Rightarrow> transform \<Rightarrow> shape option \<Rightarrow> int list" where
  "example_iters im rs t gt = map n_iters rs"

definition box_half :: shape where
  "box_half = [(0, 0), (0, 3), (3/2, 3), (3/2, 0)]"

definition example_pyramid :: "image list" where
  "example_pyramid =
     [\<lparr>pixels = 0, height = 5, width = 5,
       landmarks = [(''PTS'', box_half), (''__initial_shape'', box_half)]\<rparr>,
      \<lparr>pixels = 0, height = 10, width = 10,
       landmarks = [(''PTS'', box_3_6), (''__initial_shape'', box_3_6)]\<rparr>]"

definition example_calls :: "int \<Rightarrow> int \<Rightarrow> run_call list" where
  "example_calls b0 b1 =
     [\<lparr>call_scale = 0, call_image = example_pyramid ! 0, call_shape = box_half,
       call_gt_shape = None, call_max_iters = b0\<rparr>,
      \<lparr>call_scale = 1, call_image = example_pyramid ! 1, call_shape = box_3_6,
       call_gt_shape = None, call_max_iters = b1\<rparr>]"

text \<open>
  An image that already carries a group named \<open>'__initial_shape'\<close>, and the pyramid of
  \<open>example_image\<close> when a ground truth shape is given.
\<close>

definition tagged_image :: image where
  "tagged_image =
     \<lparr>pixels = 0, height = 10, width = 10,
      landmarks = [(''PTS'', box_3_6), (''__initial_shape'', unit_square)]\<rparr>"

definition gt_pyramid :: "image list" where
  "gt_pyramid =
     [\<lparr>pixels = 0, height = 5, width = 5,
       landmarks = [(''PTS'', box_half), (''__initial_shape'', box_half),
                    (''__gt_shape'', box_half)]\<rparr>,
      \<lparr>pixels = 0, height = 10, width = 10,
       landmarks = [(''PTS'', box_3_6), (''__initial_shape'', box_3_6),
                    (''__gt_shape'', box_3_6)]\<rparr>]"

text \<open>
  A stand-in for \<open>fnmatch\<close> on patterns that are a literal or a literal followed by
  \<open>*\<close>, a perturbation function that shifts the box by the number of calls made so far,
  and an image that carries a group with a generated name from an earlier call.
\<close>

definition example_fnmatch :: "string \<Rightarrow> string \<Rightarrow> bool" where
  "example_fnmatch name pat =
     (if pat \<noteq> [] \<and> last pat = CHR ''*'' then prefix (butlast pat) name else name = pat)"

definition example_perturb :: "nat perturb_func" where
  "example_perturb gt_s bb st = (Suc st, Inr (map (\<lambda>p. (fst p + real st, snd p)) bb))"


section \<open>Properties of noisy_alignment_similarity_transform\<close>

lemma uniform_parameters_3:
  "uniform_parameters [p0, p1, p2] target g =
     (g\<lparr>position := position g + 4\<rparr>,
      Inr (p0 * 0.5 * (2 * normal_draws g (position g) - 1),
           p1 * 180 * (2 * uniform_draws g (position g + 1) - 1),
           (p2 * fst (range_pc target) * (2 * uniform_draws g (position g + 2) - 1),
            p2 * snd (range_pc target) * (2 * uniform_draws g (position g + 3) - 1))))"
  by (simp add: uniform_parameters_def getitem_def randn_def rand_def asscalar_def as_pair_def
      eval_nat_numeral)

lemma gaussian_parameters_3:
  "gaussian_parameters [p0, p1, p2] target g =
     (g\<lparr>position := position g + 4\<rparr>,
      Inr (p0 * (0.5 / 3) * normal_draws g (position g),
           p1 * (180 / 3) * normal_draws g (position g + 1),
           (p2 * (fst (range_pc target) / 3) * normal_draws g (position g + 2),
            p2 * (snd (range_pc target) / 3) * normal_draws g (position g + 3))))"
  by (simp add: gaussian_parameters_def getitem_def randn_def asscalar_def as_pair_def
      eval_nat_numeral)




lemma range_pc_unit_square: "range_pc unit_square = (1, 1)"
  by (simp add: range_pc_def unit_square_def extent_def)

lemma range_pc_box_3_6: "range_pc box_3_6 = (3, 6)"
  by (simp add: range_pc_def box_3_6_def extent_def)

text \<open>
  C1. The claim: in the uniform branch the scale perturbation is \<open>pct[0] * 0.5 * u\<close> with
  \<open>u\<close> a draw of \<open>U(-1, 1)\<close>. The code takes the draw of line 60 from \<open>randn\<close>, the
  standard normal generator, where lines 61 and 62 use \<open>rand\<close>. With every normal draw
  \<open>2\<close> and every uniform draw \<open>1/2\<close>, percentages \<open>[0.1, 0.1, 0.1]\<close> give the scale
  perturbation \<open>0.1 * 0.5 * (2 * 2 - 1) = 0.15\<close>, which is neither \<open>0.1 * 0.5 * (2 * 1/2 - 1) = 0\<close>
  nor within \<open>0.1 * 0.5 = 0.05\<close> of zero as any \<open>U(-1, 1)\<close> draw would leave it; rotation
  and translation do use the uniform draws and are zero.
\<close>

theorem uniform_scale_uses_normal_draw:
  "uniform_parameters [1/10, 1/10, 1/10] unit_square (constant_rng 2 (1/2)) =
     ((constant_rng 2 (1/2))\<lparr>position := 4\<rparr>, Inr (3/20, 0, (0, 0)))
   \<and> (3/20 :: real) \<noteq> 1/10 * 0.5 * (2 * (1/2) - 1)
   \<and> \<bar>3/20 :: real\<bar> > 1/10 * 0.5 * 1"
  by (simp add: uniform_parameters_3 constant_rng_def)

text \<open>
  C2, as stated: the gaussian translation is \<open>pct[2] * target.range() * n\<close> with no factor
  \<open>1/3\<close>. It fails: for a target of extent \<open>(3, 6)\<close>, percentages \<open>[0, 0, 0.3]\<close> and
  normal draws all \<open>1\<close> the code computes \<open>(0.3, 0.6)\<close>, not \<open>(0.9, 1.8)\<close>.
\<close>

theorem gaussian_translation_counterexample:
  "gaussian_parameters [0, 0, 3/10] box_3_6 (constant_rng 1 0) =
     ((constant_rng 1 0)\<lparr>position := 4\<rparr>, Inr (0, 0, (3/10, 6/10)))
   \<and> (3/10, 6/10) \<noteq>
       (3/10 * fst (range_pc box_3_6) * 1, 3/10 * snd (range_pc box_3_6) * (1::real))"
  by (simp add: gaussian_parameters_3 constant_rng_def range_pc_box_3_6)

text \<open>
  C2, amended: with noise type \<open>'gaussian'\<close> and percentages \<open>[p0, p1, p2]\<close> after
  lines 44-47, the call succeeds and the translation perturbation is, per axis,
  \<open>p2 * (target.range() / 3) * n\<close> with \<open>n\<close> the third and fourth normal draws: all three
  gaussian components carry the factor \<open>1/3\<close>.
\<close>

theorem gaussian_translation_third_of_range:
  assumes "broadcast_noise_percentage st np = (st1, Inr [p0, p1, p2])"
  shows "noisy_alignment_similarity_transform A st source target (Interned ''gaussian'') np rot =
     (st1\<lparr>np_random := (np_random st1)\<lparr>position := position (np_random st1) + 4\<rparr>\<rparr>,
      Inr (perturb_similarity (A source target rot) target
        (p0 * (0.5 / 3) * normal_draws (np_random st1) (position (np_random st1)),
         p1 * (180 / 3) * normal_draws (np_random st1) (position (np_random st1) + 1),
         (p2 * (fst (range_pc target) / 3)
             * normal_draws (np_random st1) (position (np_random st1) + 2),
          p2 * (snd (range_pc target) / 3)
             * normal_draws (np_random st1) (position (np_random st1) + 3)))))"
  using assms
  by (simp add: noisy_alignment_similarity_transform_def py_is_def gaussian_parameters_3)

theorem gaussian_translation_third_of_range_witness:
  "noisy_alignment_similarity_transform identity_alignment (example_state []) unit_square
       box_3_6 (Interned ''gaussian'') (PFloat (3/10)) False =
     ((example_state [])\<lparr>np_random := (constant_rng 1 0)\<lparr>position := 4\<rparr>\<rparr>,
      Inr (perturb_similarity (Homogeneous 1 0 0 0 1 0) box_3_6
             (1/20, 18, (3/10, 6/10))))"
  using gaussian_translation_third_of_range
    [of "example_state []" "PFloat (3/10)" "example_state []" "3/10" "3/10" "3/10"
        identity_alignment unit_square box_3_6 False]
  by (simp add: broadcast_noise_percentage_def example_state_def constant_rng_def
      identity_alignment_def range_pc_box_3_6)




text \<open>
  C6. The claim: the error is raised exactly when \<open>noise_type\<close> is neither \<open>'gaussian'\<close>
  nor \<open>'uniform'\<close>. The code tests with \<open>is\<close>: a string equal to \<open>'uniform'\<close> that is not
  the interned literal object (one built at run time) is rejected with the ValueError,
  whatever the source, the target, the rotation flag and the float or list given as
  noise percentage (an int has raised \<open>TypeError\<close> on line 46 before). The message does
  name both supported values.
\<close>

theorem equal_but_not_identical_noise_type_rejected:
  "snd (noisy_alignment_similarity_transform A st source target (Fresh n ''uniform'') np rot) =
     (case np of
        PInt i \<Rightarrow> Inl TypeError
      | _ \<Rightarrow>
          Inl (ValueError ''Unexpected noise type. Supported values are {gaussian, uniform}''))
   \<and> py_eq (Fresh n ''uniform'') (Interned ''uniform'')"
  by (simp add: noisy_alignment_similarity_transform_def broadcast_noise_percentage_def
      py_is_def py_eq_def Let_def split: noise_percentage_arg.splits)

text \<open>
  C10. When \<open>noise_percentage\<close> is a list object holding one element \<open>p\<close>, the caller's
  list holds \<open>[p, p, p]\<close> after the call, whatever the call returns or raises.
\<close>

theorem single_element_list_mutated_in_place:
  assumes "heap st a = [p]"
  shows "heap (fst (noisy_alignment_similarity_transform A st source target noise_type
                      (PList a) rot)) a = [p, p, p]"
  using assms
  by (simp add: noisy_alignment_similarity_transform_def broadcast_noise_percentage_def Let_def
      split: prod.splits sum.splits)

theorem single_element_list_mutated_in_place_witness:
  "heap (fst (noisy_alignment_similarity_transform identity_alignment (example_state [1/10])
                unit_square box_3_6 (Interned ''uniform'') (PList 0) False)) 0 =
     [1/10, 1/10, 1/10]"
proof -
  have h: "heap (example_state [1/10]) 0 = [1/10]"
    by (simp add: example_state_def)
  show ?thesis
    using single_element_list_mutated_in_place
      [OF h, of identity_alignment unit_square box_3_6 "Interned ''uniform''" False]
    by simp
qed

section \<open>Properties of the multi-scale fit\<close>

lemma fit_loop_calls:
  "fit_loop f images gts budgets idxs (sh, rs, cs) = (cs', r) \<Longrightarrow>
   \<exists>new. cs' = cs @ new \<and> length new \<le> length idxs \<and>
     (\<forall>j < length new. call_scale (new ! j) = idxs ! j \<and>
        getitem budgets (idxs ! j) = Inr (call_max_iters (new ! j))) \<and>
     ((\<exists>x. r = Inr x) \<longrightarrow> length new = length idxs)"
proof (induction idxs arbitrary: sh rs cs)
  case Nil
  then show ?case by auto
next
  case (Cons i rest)
  show ?case
  proof (cases "\<exists>gt alg im b res sh2.
      (case gts of None \<Rightarrow> Inr None
        | Some gs \<Rightarrow> (case getitem gs i of Inl e \<Rightarrow> Inl e | Inr g \<Rightarrow> Inr (Some g))) = Inr gt \<and>
      getitem (algorithms f) i = Inr alg \<and> getitem images i = Inr im \<and>
      getitem budgets i = Inr b \<and> alg im sh gt b = Inr res \<and>
      next_scale_shape f i (final_shape res) = Inr sh2")
    case True
    then obtain gt alg im b res sh2 where
      h: "(case gts of None \<Rightarrow> Inr None
        | Some gs \<Rightarrow> (case getitem gs i of Inl e \<Rightarrow> Inl e | Inr g \<Rightarrow> Inr (Some g))) = Inr gt"
      "getitem (algorithms f) i = Inr alg" "getitem images i = Inr im"
      "getitem budgets i = Inr b" "alg im sh gt b = Inr res"
      "next_scale_shape f i (final_shape res) = Inr sh2"
      by blast
    let ?c = "\<lparr>call_scale = i, call_image = im, call_shape = sh,
                call_gt_shape = gt, call_max_iters = b\<rparr>"
    from Cons.prems h have
      "fit_loop f images gts budgets rest (sh2, rs @ [res], cs @ [?c]) = (cs', r)"
      by (simp add: Let_def)
    from Cons.IH[OF this] obtain new where
      n: "cs' = (cs @ [?c]) @ new" "length new \<le> length rest"
      "\<forall>j < length new. call_scale (new ! j) = rest ! j \<and>
         getitem budgets (rest ! j) = Inr (call_max_iters (new ! j))"
      "(\<exists>x. r = Inr x) \<longrightarrow> length new = length rest"
      by blast
    have "\<forall>j < length (?c # new). call_scale ((?c # new) ! j) = (i # rest) ! j \<and>
        getitem budgets ((i # rest) ! j) = Inr (call_max_iters ((?c # new) ! j))"
      using n(3) h(4) by (auto simp: nth_Cons split: nat.splits)
    then show ?thesis
      using n by (intro exI[of _ "?c # new"]) auto
  next
    case False
    have "\<exists>new. cs' = cs @ new \<and> length new \<le> 1 \<and>
      (\<forall>j < length new. call_scale (new ! j) = i \<and>
          getitem budgets i = Inr (call_max_iters (new ! j))) \<and> (\<exists>e. r = Inl e)"
      using Cons.prems False
      by (auto simp: Let_def split: sum.splits option.splits)
    then obtain new where n: "cs' = cs @ new" "length new \<le> 1"
      "\<forall>j < length new. call_scale (new ! j) = i \<and>
          getitem budgets i = Inr (call_max_iters (new ! j))" "\<exists>e. r = Inl e"
      by blast
    have "\<forall>j < length new. call_scale (new ! j) = (i # rest) ! j \<and>
        getitem budgets ((i # rest) ! j) = Inr (call_max_iters (new ! j))"
      using n(2,3) by (auto simp: nth_Cons split: nat.splits)
    then show ?thesis using n by (intro exI[of _ new]) auto
  qed
qed


lemma fit_loop_shapes:
  "fit_loop f images gts budgets idxs (sh, rs, cs) = (cs', Inr (sh', rs')) \<Longrightarrow>
   \<exists>new nrs. cs' = cs @ new \<and> rs' = rs @ nrs \<and> length new = length idxs \<and>
     length nrs = length idxs \<and>
     (idxs \<noteq> [] \<longrightarrow> call_shape (hd new) = sh) \<and>
     (\<forall>j. Suc j < length idxs \<longrightarrow>
        next_scale_shape f (idxs ! j) (final_shape (nrs ! j)) = Inr (call_shape (new ! Suc j))) \<and>
     (idxs = [] \<longrightarrow> sh' = sh) \<and>
     (idxs \<noteq> [] \<longrightarrow> next_scale_shape f (last idxs) (final_shape (last nrs)) = Inr sh')"
proof (induction idxs arbitrary: sh rs cs)
  case Nil
  then show ?case by auto
next
  case (Cons i rest)
  from Cons.prems obtain gt alg im b res sh2 where
    h: "getitem (algorithms f) i = Inr alg" "getitem images i = Inr im"
      "getitem budgets i = Inr b" "alg im sh gt b = Inr res"
      "next_scale_shape f i (final_shape res) = Inr sh2"
    and rec: "fit_loop f images gts budgets rest
        (sh2, rs @ [res], cs @ [\<lparr>call_scale = i, call_image = im, call_shape = sh,
                call_gt_shape = gt, call_max_iters = b\<rparr>]) = (cs', Inr (sh', rs'))"
    by (auto simp: Let_def split: sum.splits option.splits)
  let ?c = "\<lparr>call_scale = i, call_image = im, call_shape = sh,
                call_gt_shape = gt, call_max_iters = b\<rparr>"
  from Cons.IH[OF rec] obtain new nrs where
    n: "cs' = (cs @ [?c]) @ new" "rs' = (rs @ [res]) @ nrs" "length new = length rest"
      "length nrs = length rest"
      "rest \<noteq> [] \<longrightarrow> call_shape (hd new) = sh2"
      "\<forall>j. Suc j < length rest \<longrightarrow>
        next_scale_shape f (rest ! j) (final_shape (nrs ! j)) = Inr (call_shape (new ! Suc j))"
      "rest = [] \<longrightarrow> sh' = sh2"
      "rest \<noteq> [] \<longrightarrow> next_scale_shape f (last rest) (final_shape (last nrs)) = Inr sh'"
    by blast
  have step: "\<forall>j. Suc j < length (i # rest) \<longrightarrow>
        next_scale_shape f ((i # rest) ! j) (final_shape ((res # nrs) ! j)) =
          Inr (call_shape ((?c # new) ! Suc j))"
  proof (intro allI impI)
    fix j assume j: "Suc j < length (i # rest)"
    show "next_scale_shape f ((i # rest) ! j) (final_shape ((res # nrs) ! j)) =
          Inr (call_shape ((?c # new) ! Suc j))"
    proof (cases j)
      case 0
      with j have "rest \<noteq> []" by auto
      with n(5) n(3) have "call_shape (new ! 0) = sh2"
        by (cases new) auto
      with 0 h(5) show ?thesis by simp
    next
      case (Suc j')
      with j n(6) show ?thesis by simp
    qed
  qed
  have lst: "next_scale_shape f (last (i # rest)) (final_shape (last (res # nrs))) = Inr sh'"
  proof (cases "rest = []")
    case True
    with n(4) n(7) h(5) show ?thesis by simp
  next
    case False
    with n(4) have "nrs \<noteq> []" by auto
    with False n(8) show ?thesis by simp
  qed
  show ?case
    using n(1-4) step lst
    by (intro exI[of _ "?c # new"] exI[of _ "res # nrs"]) auto
qed

lemma apply_transform_Scale_1: "apply_transform (Scale 1) s = s"
  by (induction s) (auto simp: apply_transform_def Scale_def)

lemma next_scale_shape_not_final:
  assumes srt: "sorted (scales f)" and pos: "\<forall>s \<in> set (scales f). 0 < s"
    and i: "Suc i < length (scales f)"
  shows "next_scale_shape f i s =
           Inr (apply_transform (Scale (scales f ! Suc i / scales f ! i)) s)"
proof -
  have nz: "scales f ! i \<noteq> 0"
    using pos i by (metis Suc_lessD less_irrefl nth_mem)
  have ne: "scales f \<noteq> []" using i by auto
  show ?thesis
  proof (cases "scales f ! i = last (scales f)")
    case False
    then show ?thesis using i nz by (simp add: next_scale_shape_def getitem_def)
  next
    case True
    have "scales f ! i \<le> scales f ! Suc i"
      using srt i by (simp add: sorted_nth_mono)
    moreover have "scales f ! Suc i \<le> last (scales f)"
      using srt i ne by (simp add: last_conv_nth sorted_nth_mono)
    ultimately have "scales f ! Suc i = scales f ! i" using True by simp
    then show ?thesis
      using True i nz by (simp add: next_scale_shape_def getitem_def apply_transform_Scale_1)
  qed
qed

lemma next_scale_shape_final:
  assumes "Suc i = length (scales f)"
  shows "next_scale_shape f i s = Inr s"
proof -
  have "scales f \<noteq> []" using assms by auto
  moreover have "length (scales f) - 1 = i" using assms by arith
  ultimately have "last (scales f) = scales f ! i"
    by (simp add: last_conv_nth)
  then show ?thesis using assms by (simp add: next_scale_shape_def getitem_def)
qed

lemma fit_calls:
  assumes "fit f images sh gts mi = (calls, r)"
  shows "(\<exists>e. check_max_iters mi (n_scales f) = Inl e \<and> calls = [] \<and> r = Inl e) \<or>
         (\<exists>budgets. check_max_iters mi (n_scales f) = Inr budgets \<and>
            length calls \<le> n_scales f \<and>
            (\<forall>j < length calls. call_scale (calls ! j) = j \<and>
               getitem budgets j = Inr (call_max_iters (calls ! j))) \<and>
            ((\<exists>x. r = Inr x) \<longrightarrow> length calls = n_scales f))"
proof (cases "check_max_iters mi (n_scales f)")
  case (Inl e)
  with assms show ?thesis by (simp add: fit_def)
next
  case (Inr budgets)
  obtain cs' r' where l: "fit_loop f images gts budgets [0..<n_scales f] (sh, [], []) = (cs', r')"
    by (cases "fit_loop f images gts budgets [0..<n_scales f] (sh, [], [])") auto
  from assms Inr l have c: "calls = cs'" and r: "(\<exists>x. r = Inr x) \<longrightarrow> (\<exists>x. r' = Inr x)"
    by (auto simp: fit_def split: sum.splits prod.splits)
  from fit_loop_calls[OF l] obtain new where
    n: "cs' = [] @ new" "length new \<le> length [0..<n_scales f]"
      "\<forall>j < length new. call_scale (new ! j) = [0..<n_scales f] ! j \<and>
        getitem budgets ([0..<n_scales f] ! j) = Inr (call_max_iters (new ! j))"
      "(\<exists>x. r' = Inr x) \<longrightarrow> length new = length [0..<n_scales f]"
    by blast
  have "\<forall>j < length calls. call_scale (calls ! j) = j \<and>
               getitem budgets j = Inr (call_max_iters (calls ! j))"
    using n(1,2,3) c by auto
  then show ?thesis using Inr n c r by auto
qed

lemma fit_from_shape_unfold:
  "prepare_image ops f image0 s0 gt crop = (im, Inr (images, shapes, gts)) \<Longrightarrow>
   shapes \<noteq> [] \<Longrightarrow> fit f images (hd shapes) gts mi = (cs, r') \<Longrightarrow>
   fit_from_shape ops AA FR f image0 s0 mi gt crop =
     (im, cs, case r' of Inl e \<Rightarrow> Inl e
                | Inr rs \<Rightarrow> Inr (FR im rs (AA (last shapes) s0) gt))"
  unfolding fit_from_shape_def by (simp split: sum.split)

lemma fit_from_shape_calls:
  assumes "fit_from_shape ops AA FR f image0 s0 mi gt crop = (image', calls, r)"
  shows "(calls = [] \<and> (\<exists>e. r = Inl e)) \<or>
         (\<exists>images sh gts r'. fit f images sh gts mi = (calls, r') \<and>
             ((\<exists>x. r = Inr x) \<longrightarrow> (\<exists>x. r' = Inr x)))"
proof (cases "prepare_image ops f image0 s0 gt crop")
  case (Pair im pr)
  show ?thesis
  proof (cases pr)
    case (Inl e)
    have "(image', calls, r) = (im, [], Inl e)"
      using Pair Inl assms [symmetric] by (simp add: fit_from_shape_def)
    then have "calls = []" "r = Inl e" by simp_all
    then show ?thesis by blast
  next
    case (Inr t)
    obtain images shapes gts where t: "t = (images, shapes, gts)" by (cases t) auto
    have p: "prepare_image ops f image0 s0 gt crop = (im, Inr (images, shapes, gts))"
      using Pair Inr t by simp
    show ?thesis
    proof (cases "shapes = []")
      case True
      have "(image', calls, r) = (im, [], Inl IndexError)"
        using p True assms [symmetric] by (simp add: fit_from_shape_def)
      then have "calls = []" "r = Inl IndexError" by simp_all
      then show ?thesis by blast
    next
      case False
      obtain cs r' where ft: "fit f images (hd shapes) gts mi = (cs, r')"
        by (cases "fit f images (hd shapes) gts mi") auto
      have eq: "(image', calls, r) = (im, cs, case r' of Inl e \<Rightarrow> Inl e
                | Inr rs \<Rightarrow> Inr (FR im rs (AA (last shapes) s0) gt))"
        using fit_from_shape_unfold [OF p False ft, of AA FR] assms by simp
      from eq have c: "calls = cs" by simp
      from eq have "r = (case r' of Inl e \<Rightarrow> Inl e
                | Inr rs \<Rightarrow> Inr (FR im rs (AA (last shapes) s0) gt))" by simp
      then have i: "(\<exists>x. r = Inr x) \<longrightarrow> (\<exists>x. r' = Inr x)" by (cases r') simp_all
      have "fit f images (hd shapes) gts mi = (calls, r') \<and>
             ((\<exists>x. r = Inr x) \<longrightarrow> (\<exists>x. r' = Inr x))" using ft c i by simp
      then have "\<exists>images sh gts r'. fit f images sh gts mi = (calls, r') \<and>
             ((\<exists>x. r = Inr x) \<longrightarrow> (\<exists>x. r' = Inr x))" by (intro exI)
      then show ?thesis by (rule disjI2)
    qed
  qed
qed

lemma example_prepare_image:
  "prepare_image example_ops example_fitter example_image box_3_6 None None =
     (example_image, Inr (example_pyramid, [box_half, box_3_6], None))"
  by (simp add: prepare_image_def example_ops_def example_fitter_def example_image_def
      example_pyramid_def box_half_def box_3_6_def n_scales_def getitem_def
      landmarks_setitem_def landmarks_getitem_def landmarks_delitem_def
      apply_transform_def Scale_def Let_def)

lemma example_fit_loop:
  "fit_loop example_fitter example_pyramid None [b0, b1] [0, Suc 0] (box_half, [], []) =
     (example_calls b0 b1,
      Inr (box_3_6, [\<lparr>final_shape = box_half, n_iters = b0\<rparr>,
                     \<lparr>final_shape = box_3_6, n_iters = b1\<rparr>]))"
  by (simp add: example_fitter_def example_pyramid_def example_calls_def example_algorithm_def
      box_half_def box_3_6_def getitem_def next_scale_shape_def
      apply_transform_def Scale_def Let_def)

lemma example_fit_int:
  "fit example_fitter example_pyramid box_half None (MaxItersInt k) =
     (example_calls k k,
      Inr [\<lparr>final_shape = box_half, n_iters = k\<rparr>, \<lparr>final_shape = box_3_6, n_iters = k\<rparr>])"
proof -
  have "n_scales example_fitter = 2" by (simp add: n_scales_def example_fitter_def)
  moreover have "[0..<2] = [0, 1::nat]" by (simp add: upt_rec)
  moreover have "replicate 2 k = [k, k]" by (simp add: eval_nat_numeral)
  ultimately show ?thesis
    by (simp add: fit_def check_max_iters_def example_fit_loop del: fit_loop.simps)
qed

lemma example_fit_list:
  "fit example_fitter example_pyramid box_half None (MaxItersList [b0, b1]) =
     (example_calls b0 b1,
      Inr [\<lparr>final_shape = box_half, n_iters = b0\<rparr>, \<lparr>final_shape = box_3_6, n_iters = b1\<rparr>])"
proof -
  have "n_scales example_fitter = 2" by (simp add: n_scales_def example_fitter_def)
  moreover have "[0..<2] = [0, 1::nat]" by (simp add: upt_rec)
  ultimately show ?thesis
    by (simp add: fit_def check_max_iters_def example_fit_loop del: fit_loop.simps)
qed

lemma example_fit_from_shape_int:
  "fit_from_shape example_ops example_affine example_result example_fitter example_image
       box_3_6 (MaxItersInt k) None None =
     (example_image, example_calls k k, Inr [box_half, box_3_6])"
  by (simp add: fit_from_shape_def example_prepare_image example_fit_int example_result_def)

lemma example_fit_from_shape_list:
  "fit_from_shape example_ops example_affine example_result example_fitter example_image
       box_3_6 (MaxItersList [b0, b1]) None None =
     (example_image, example_calls b0 b1, Inr [box_half, box_3_6])"
  by (simp add: fit_from_shape_def example_prepare_image example_fit_list example_result_def)

lemma example_fit_from_shape_mismatch:
  "fit_from_shape example_ops example_affine example_result example_fitter example_image
       box_3_6 (MaxItersList [b0]) None None =
     (example_image, [], Inl ConfigurationMismatch)"
proof -
  have "n_scales example_fitter = 2" by (simp add: n_scales_def example_fitter_def)
  then show ?thesis
    by (simp add: fit_from_shape_def example_prepare_image fit_def check_max_iters_def)
qed

lemma fit_loop_runs:
  "fit_loop f images gts budgets idxs (sh, rs, cs) = (cs', Inr (sh', rs')) \<Longrightarrow>
   \<exists>new nrs. cs' = cs @ new \<and> rs' = rs @ nrs \<and> length new = length idxs \<and>
     length nrs = length idxs \<and>
     (\<forall>j < length idxs.
        idxs ! j < length images \<and> call_image (new ! j) = images ! (idxs ! j) \<and>
        call_gt_shape (new ! j) = map_option (\<lambda>gs. gs ! (idxs ! j)) gts \<and>
        idxs ! j < length budgets \<and> call_max_iters (new ! j) = budgets ! (idxs ! j) \<and>
        (algorithms f ! (idxs ! j)) (images ! (idxs ! j)) (call_shape (new ! j))
            (map_option (\<lambda>gs. gs ! (idxs ! j)) gts) (budgets ! (idxs ! j)) = Inr (nrs ! j))"
proof (induction idxs arbitrary: sh rs cs)
  case Nil
  then show ?case by auto
next
  case (Cons i rest)
  from Cons.prems obtain gt alg im b res sh2 where
    h: "getitem (algorithms f) i = Inr alg" "getitem images i = Inr im"
      "getitem budgets i = Inr b" "alg im sh gt b = Inr res"
      "(case gts of None \<Rightarrow> Inr None
        | Some gs \<Rightarrow> (case getitem gs i of Inl e \<Rightarrow> Inl e | Inr g \<Rightarrow> Inr (Some g))) = Inr gt"
    and rec: "fit_loop f images gts budgets rest
        (sh2, rs @ [res], cs @ [\<lparr>call_scale = i, call_image = im, call_shape = sh,
                call_gt_shape = gt, call_max_iters = b\<rparr>]) = (cs', Inr (sh', rs'))"
    by (auto simp: Let_def split: sum.splits option.splits)
  let ?c = "\<lparr>call_scale = i, call_image = im, call_shape = sh,
                call_gt_shape = gt, call_max_iters = b\<rparr>"
  have alg: "algorithms f ! i = alg" using h(1) by (simp add: getitem_def split: if_splits)
  have im: "i < length images" "images ! i = im"
    using h(2) by (simp_all add: getitem_def split: if_splits)
  have b: "i < length budgets" "budgets ! i = b"
    using h(3) by (simp_all add: getitem_def split: if_splits)
  have gt: "gt = map_option (\<lambda>gs. gs ! i) gts"
    using h(5) by (cases gts) (auto simp: getitem_def split: if_splits)
  from Cons.IH[OF rec] obtain new nrs where
    n: "cs' = (cs @ [?c]) @ new" "rs' = (rs @ [res]) @ nrs" "length new = length rest"
      "length nrs = length rest"
      "\<forall>j < length rest.
        rest ! j < length images \<and> call_image (new ! j) = images ! (rest ! j) \<and>
        call_gt_shape (new ! j) = map_option (\<lambda>gs. gs ! (rest ! j)) gts \<and>
        rest ! j < length budgets \<and> call_max_iters (new ! j) = budgets ! (rest ! j) \<and>
        (algorithms f ! (rest ! j)) (images ! (rest ! j)) (call_shape (new ! j))
            (map_option (\<lambda>gs. gs ! (rest ! j)) gts) (budgets ! (rest ! j)) = Inr (nrs ! j)"
    by (elim exE conjE) (rule that)
  have step: "\<forall>j < length (i # rest).
        (i # rest) ! j < length images \<and>
        call_image ((?c # new) ! j) = images ! ((i # rest) ! j) \<and>
        call_gt_shape ((?c # new) ! j) = map_option (\<lambda>gs. gs ! ((i # rest) ! j)) gts \<and>
        (i # rest) ! j < length budgets \<and>
        call_max_iters ((?c # new) ! j) = budgets ! ((i # rest) ! j) \<and>
        (algorithms f ! ((i # rest) ! j)) (images ! ((i # rest) ! j))
            (call_shape ((?c # new) ! j))
            (map_option (\<lambda>gs. gs ! ((i # rest) ! j)) gts) (budgets ! ((i # rest) ! j)) =
          Inr ((res # nrs) ! j)"
  proof (intro allI impI)
    fix j assume j: "j < length (i # rest)"
    show "(i # rest) ! j < length images \<and>
        call_image ((?c # new) ! j) = images ! ((i # rest) ! j) \<and>
        call_gt_shape ((?c # new) ! j) = map_option (\<lambda>gs. gs ! ((i # rest) ! j)) gts \<and>
        (i # rest) ! j < length budgets \<and>
        call_max_iters ((?c # new) ! j) = budgets ! ((i # rest) ! j) \<and>
        (algorithms f ! ((i # rest) ! j)) (images ! ((i # rest) ! j))
            (call_shape ((?c # new) ! j))
            (map_option (\<lambda>gs. gs ! ((i # rest) ! j)) gts) (budgets ! ((i # rest) ! j)) =
          Inr ((res # nrs) ! j)"
    proof (cases j)
      case 0
      with alg im b gt h(4) show ?thesis by simp
    next
      case (Suc j')
      with j have "j' < length rest" by simp
      with n(5) Suc show ?thesis by simp
    qed
  qed
  have a: "cs' = cs @ (?c # new)" using n(1) by simp
  have bb: "rs' = rs @ (res # nrs)" using n(2) by simp
  have c: "length (?c # new) = length (i # rest)" using n(3) by simp
  have d: "length (res # nrs) = length (i # rest)" using n(4) by simp
  show ?case
    by (intro exI[of _ "?c # new"] exI[of _ "res # nrs"] conjI a bb c d step)
qed

lemma fit_loop_earlier_runs:
  "fit_loop f images gts budgets idxs (sh, rs, cs) = (cs', r) \<Longrightarrow>
   \<exists>new. cs' = cs @ new \<and>
     (\<forall>j. Suc j < length new \<longrightarrow>
        (\<exists>res. (algorithms f ! (idxs ! j)) (call_image (new ! j)) (call_shape (new ! j))
                  (call_gt_shape (new ! j)) (call_max_iters (new ! j)) = Inr res))"
proof (induction idxs arbitrary: sh rs cs)
  case Nil
  then show ?case by auto
next
  case (Cons i rest)
  show ?case
  proof (cases "\<exists>gt alg im b res sh2.
      (case gts of None \<Rightarrow> Inr None
        | Some gs \<Rightarrow> (case getitem gs i of Inl e \<Rightarrow> Inl e | Inr g \<Rightarrow> Inr (Some g))) = Inr gt \<and>
      getitem (algorithms f) i = Inr alg \<and> getitem images i = Inr im \<and>
      getitem budgets i = Inr b \<and> alg im sh gt b = Inr res \<and>
      next_scale_shape f i (final_shape res) = Inr sh2")
    case True
    then obtain gt alg im b res sh2 where
      h: "(case gts of None \<Rightarrow> Inr None
        | Some gs \<Rightarrow> (case getitem gs i of Inl e \<Rightarrow> Inl e | Inr g \<Rightarrow> Inr (Some g))) = Inr gt"
      "getitem (algorithms f) i = Inr alg" "getitem images i = Inr im"
      "getitem budgets i = Inr b" "alg im sh gt b = Inr res"
      "next_scale_shape f i (final_shape res) = Inr sh2"
      by (elim exE conjE) (rule that)
    let ?c = "\<lparr>call_scale = i, call_image = im, call_shape = sh,
                call_gt_shape = gt, call_max_iters = b\<rparr>"
    have alg: "algorithms f ! i = alg" using h(2) by (simp add: getitem_def split: if_splits)
    from Cons.prems h have
      "fit_loop f images gts budgets rest (sh2, rs @ [res], cs @ [?c]) = (cs', r)"
      by (simp add: Let_def)
    from Cons.IH[OF this] obtain new where
      n: "cs' = (cs @ [?c]) @ new"
      "\<forall>j. Suc j < length new \<longrightarrow>
        (\<exists>res. (algorithms f ! (rest ! j)) (call_image (new ! j)) (call_shape (new ! j))
                  (call_gt_shape (new ! j)) (call_max_iters (new ! j)) = Inr res)"
      by (elim exE conjE) (rule that)
    have step: "\<forall>j. Suc j < length (?c # new) \<longrightarrow>
        (\<exists>res. (algorithms f ! ((i # rest) ! j)) (call_image ((?c # new) ! j))
                  (call_shape ((?c # new) ! j)) (call_gt_shape ((?c # new) ! j))
                  (call_max_iters ((?c # new) ! j)) = Inr res)"
    proof (intro allI impI)
      fix j assume j: "Suc j < length (?c # new)"
      show "\<exists>res. (algorithms f ! ((i # rest) ! j)) (call_image ((?c # new) ! j))
                  (call_shape ((?c # new) ! j)) (call_gt_shape ((?c # new) ! j))
                  (call_max_iters ((?c # new) ! j)) = Inr res"
      proof (cases j)
        case 0
        with alg h(5) show ?thesis by simp
      next
        case (Suc j')
        with j have "Suc j' < length new" by simp
        with n(2) Suc show ?thesis by simp
      qed
    qed
    have a: "cs' = cs @ (?c # new)" using n(1) by simp
    show ?thesis by (intro exI[of _ "?c # new"] conjI a step)
  next
    case False
    have "\<exists>new. cs' = cs @ new \<and> length new \<le> 1"
      using Cons.prems False
      by (auto simp: Let_def split: sum.splits option.splits)
    then obtain new where n: "cs' = cs @ new" "length new \<le> 1"
      by (elim exE conjE) (rule that)
    have "\<forall>j. Suc j < length new \<longrightarrow>
        (\<exists>res. (algorithms f ! ((i # rest) ! j)) (call_image (new ! j)) (call_shape (new ! j))
                  (call_gt_shape (new ! j)) (call_max_iters (new ! j)) = Inr res)"
      using n(2) by simp
    with n(1) show ?thesis by (intro exI[of _ new] conjI)
  qed
qed

lemma check_max_iters_nth:
  "check_max_iters mi n = Inr budgets \<Longrightarrow> j < n \<Longrightarrow>
   budgets ! j = (case mi of MaxItersInt k \<Rightarrow> k | MaxItersList l \<Rightarrow> l ! j)"
  by (auto simp: check_max_iters_def split: max_iters_arg.splits if_splits)

lemma fit_runs:
  assumes "fit f images sh gts mi = (calls, Inr results)"
  shows "length calls = n_scales f \<and> length results = n_scales f \<and>
     (\<forall>j < n_scales f.
        j < length images \<and> call_image (calls ! j) = images ! j \<and>
        call_gt_shape (calls ! j) = map_option (\<lambda>gs. gs ! j) gts \<and>
        call_max_iters (calls ! j) =
          (case mi of MaxItersInt k \<Rightarrow> k | MaxItersList l \<Rightarrow> l ! j) \<and>
        (algorithms f ! j) (images ! j) (call_shape (calls ! j))
            (map_option (\<lambda>gs. gs ! j) gts)
            (case mi of MaxItersInt k \<Rightarrow> k | MaxItersList l \<Rightarrow> l ! j) = Inr (results ! j))"
proof -
  from assms obtain budgets where ck: "check_max_iters mi (n_scales f) = Inr budgets"
    by (cases "check_max_iters mi (n_scales f)") (simp_all add: fit_def)
  from assms ck obtain sh' where
    l: "fit_loop f images gts budgets [0..<n_scales f] (sh, [], []) = (calls, Inr (sh', results))"
    by (auto simp: fit_def split: sum.splits prod.splits)
  from fit_loop_runs [OF l] obtain new nrs where
    n: "calls = [] @ new" "results = [] @ nrs" "length new = length [0..<n_scales f]"
      "length nrs = length [0..<n_scales f]"
      "\<forall>j < length [0..<n_scales f].
        [0..<n_scales f] ! j < length images \<and>
        call_image (new ! j) = images ! ([0..<n_scales f] ! j) \<and>
        call_gt_shape (new ! j) = map_option (\<lambda>gs. gs ! ([0..<n_scales f] ! j)) gts \<and>
        [0..<n_scales f] ! j < length budgets \<and>
        call_max_iters (new ! j) = budgets ! ([0..<n_scales f] ! j) \<and>
        (algorithms f ! ([0..<n_scales f] ! j)) (images ! ([0..<n_scales f] ! j))
            (call_shape (new ! j))
            (map_option (\<lambda>gs. gs ! ([0..<n_scales f] ! j)) gts)
            (budgets ! ([0..<n_scales f] ! j)) = Inr (nrs ! j)"
    by (elim exE conjE) (rule that)
  have len: "length calls = n_scales f" "length results = n_scales f"
    using n(1-4) by simp_all
  have each: "\<forall>j < n_scales f.
        j < length images \<and> call_image (calls ! j) = images ! j \<and>
        call_gt_shape (calls ! j) = map_option (\<lambda>gs. gs ! j) gts \<and>
        call_max_iters (calls ! j) =
          (case mi of MaxItersInt k \<Rightarrow> k | MaxItersList l \<Rightarrow> l ! j) \<and>
        (algorithms f ! j) (images ! j) (call_shape (calls ! j))
            (map_option (\<lambda>gs. gs ! j) gts)
            (case mi of MaxItersInt k \<Rightarrow> k | MaxItersList l \<Rightarrow> l ! j) = Inr (results ! j)"
  proof (intro allI impI)
    fix j assume j: "j < n_scales f"
    then have nth: "[0..<n_scales f] ! j = j" by simp
    from j have jl: "j < length [0..<n_scales f]" by simp
    note n(5) [rule_format, OF jl]
    then have t: "j < length images \<and> call_image (new ! j) = images ! j \<and>
        call_gt_shape (new ! j) = map_option (\<lambda>gs. gs ! j) gts \<and>
        j < length budgets \<and> call_max_iters (new ! j) = budgets ! j \<and>
        (algorithms f ! j) (images ! j) (call_shape (new ! j))
            (map_option (\<lambda>gs. gs ! j) gts) (budgets ! j) = Inr (nrs ! j)"
      unfolding nth .
    have b: "budgets ! j = (case mi of MaxItersInt k \<Rightarrow> k | MaxItersList l \<Rightarrow> l ! j)"
      by (rule check_max_iters_nth [OF ck j])
    from t b n(1,2) show "j < length images \<and> call_image (calls ! j) = images ! j \<and>
        call_gt_shape (calls ! j) = map_option (\<lambda>gs. gs ! j) gts \<and>
        call_max_iters (calls ! j) =
          (case mi of MaxItersInt k \<Rightarrow> k | MaxItersList l \<Rightarrow> l ! j) \<and>
        (algorithms f ! j) (images ! j) (call_shape (calls ! j))
            (map_option (\<lambda>gs. gs ! j) gts)
            (case mi of MaxItersInt k \<Rightarrow> k | MaxItersList l \<Rightarrow> l ! j) = Inr (results ! j)"
      by simp
  qed
  from len each show ?thesis by simp
qed

lemma fit_earlier_runs:
  assumes "fit f images sh gts mi = (calls, r)"
  shows "\<forall>j. Suc j < length calls \<longrightarrow>
        (\<exists>res. (algorithms f ! j) (call_image (calls ! j)) (call_shape (calls ! j))
                  (call_gt_shape (calls ! j)) (call_max_iters (calls ! j)) = Inr res)"
proof (cases "check_max_iters mi (n_scales f)")
  case (Inl e)
  with assms have "calls = []" by (simp add: fit_def)
  then show ?thesis by simp
next
  case (Inr budgets)
  obtain cs' r' where l: "fit_loop f images gts budgets [0..<n_scales f] (sh, [], []) = (cs', r')"
    by (cases "fit_loop f images gts budgets [0..<n_scales f] (sh, [], [])") auto
  from assms Inr l have c: "calls = cs'"
    by (auto simp: fit_def split: sum.splits prod.splits)
  from fit_loop_calls [OF l] obtain new0 where
    n0: "cs' = [] @ new0" "length new0 \<le> length [0..<n_scales f]"
    by (elim exE conjE) (rule that)
  from fit_loop_earlier_runs [OF l] obtain new where
    n: "cs' = [] @ new"
      "\<forall>j. Suc j < length new \<longrightarrow>
        (\<exists>res. (algorithms f ! ([0..<n_scales f] ! j)) (call_image (new ! j))
                  (call_shape (new ! j)) (call_gt_shape (new ! j))
                  (call_max_iters (new ! j)) = Inr res)"
    by (elim exE conjE) (rule that)
  from n0 n(1) c have len: "length calls \<le> n_scales f" and new: "new = calls" by simp_all
  show ?thesis
  proof (intro allI impI)
    fix j assume j: "Suc j < length calls"
    with len have "j < n_scales f" by simp
    then have nth: "[0..<n_scales f] ! j = j" by simp
    from n(2) j new have "\<exists>res. (algorithms f ! ([0..<n_scales f] ! j)) (call_image (calls ! j))
                  (call_shape (calls ! j)) (call_gt_shape (calls ! j))
                  (call_max_iters (calls ! j)) = Inr res" by simp
    then show "\<exists>res. (algorithms f ! j) (call_image (calls ! j)) (call_shape (calls ! j))
                  (call_gt_shape (calls ! j)) (call_max_iters (calls ! j)) = Inr res"
      unfolding nth .
  qed
qed

lemma fit_from_shape_normal:
  assumes "fit_from_shape ops AA FR f image0 s0 mi gt crop = (image', calls, Inr y)"
  shows "\<exists>images shapes gts results.
           prepare_image ops f image0 s0 gt crop = (image', Inr (images, shapes, gts)) \<and>
           shapes \<noteq> [] \<and> fit f images (hd shapes) gts mi = (calls, Inr results) \<and>
           y = FR image' results (AA (last shapes) s0) gt"
proof (cases "prepare_image ops f image0 s0 gt crop")
  case (Pair im pr)
  show ?thesis
  proof (cases pr)
    case (Inl e)
    have "(image', calls, Inr y) = (im, [], Inl e)"
      using Pair Inl assms [symmetric] by (simp add: fit_from_shape_def)
    then show ?thesis by simp
  next
    case (Inr t)
    obtain images shapes gts where t: "t = (images, shapes, gts)" by (cases t) auto
    have p: "prepare_image ops f image0 s0 gt crop = (im, Inr (images, shapes, gts))"
      using Pair Inr t by simp
    show ?thesis
    proof (cases "shapes = []")
      case True
      have "(image', calls, Inr y) = (im, [], Inl IndexError)"
        using p True assms [symmetric] by (simp add: fit_from_shape_def)
      then show ?thesis by simp
    next
      case False
      obtain cs r' where ft: "fit f images (hd shapes) gts mi = (cs, r')"
        by (cases "fit f images (hd shapes) gts mi") auto
      have eq: "(image', calls, Inr y) = (im, cs, case r' of Inl e \<Rightarrow> Inl e
                | Inr rs \<Rightarrow> Inr (FR im rs (AA (last shapes) s0) gt))"
        using fit_from_shape_unfold [OF p False ft, of AA FR] assms by simp
      from eq have im: "im = image'" and c: "cs = calls" by simp_all
      from eq have ry: "Inr y = (case r' of Inl e \<Rightarrow> Inl e
                | Inr rs \<Rightarrow> Inr (FR im rs (AA (last shapes) s0) gt))" by simp
      then obtain results where r': "r' = Inr results" by (cases r') simp_all
      from ry r' im have y: "y = FR image' results (AA (last shapes) s0) gt" by simp
      have "prepare_image ops f image0 s0 gt crop = (image', Inr (images, shapes, gts)) \<and>
           shapes \<noteq> [] \<and> fit f images (hd shapes) gts mi = (calls, Inr results) \<and>
           y = FR image' results (AA (last shapes) s0) gt"
        using p False ft r' im c y by simp
      then show ?thesis by (intro exI)
    qed
  qed
qed

lemma fit_from_shape_earlier_runs:
  assumes "fit_from_shape ops AA FR f image0 s0 mi gt crop = (image', calls, r)"
  shows "\<forall>j. Suc j < length calls \<longrightarrow>
        (\<exists>res. (algorithms f ! j) (call_image (calls ! j)) (call_shape (calls ! j))
                  (call_gt_shape (calls ! j)) (call_max_iters (calls ! j)) = Inr res)"
  using fit_from_shape_calls [OF assms]
proof
  assume "calls = [] \<and> (\<exists>e. r = Inl e)"
  then show ?thesis by simp
next
  assume "\<exists>images sh gts r'. fit f images sh gts mi = (calls, r') \<and>
             ((\<exists>x. r = Inr x) \<longrightarrow> (\<exists>x. r' = Inr x))"
  then obtain images sh gts r' where "fit f images sh gts mi = (calls, r')"
    by (elim exE conjE) (rule that)
  then show ?thesis by (rule fit_earlier_runs)
qed

lemma example_fit_from_shape_iters_int:
  "fit_from_shape example_ops example_affine example_iters example_fitter example_image
       box_3_6 (MaxItersInt k) None None =
     (example_image, example_calls k k, Inr [k, k])"
  by (simp add: fit_from_shape_def example_prepare_image example_fit_int example_iters_def)

lemma example_fit_from_shape_iters_list:
  "fit_from_shape example_ops example_affine example_iters example_fitter example_image
       box_3_6 (MaxItersList [b0, b1]) None None =
     (example_image, example_calls b0 b1, Inr [b0, b1])"
  by (simp add: fit_from_shape_def example_prepare_image example_fit_list example_iters_def)

lemma example_fit_from_shape_iters_mismatch:
  "fit_from_shape example_ops example_affine example_iters example_fitter example_image
       box_3_6 (MaxItersList [b0]) None None =
     (example_image, [], Inl ConfigurationMismatch)"
proof -
  have "n_scales example_fitter = 2" by (simp add: n_scales_def example_fitter_def)
  then show ?thesis
    by (simp add: fit_from_shape_def example_prepare_image fit_def check_max_iters_def)
qed

lemma max_iters_trace:
  assumes "fit_from_shape ops AA FR f image0 s0 mi gt crop = (image', calls, r)"
  shows "(\<forall>k. mi = MaxItersInt k \<longrightarrow>
            (\<forall>j < length calls. call_scale (calls ! j) = j \<and> call_max_iters (calls ! j) = k))
       \<and> (\<forall>l. mi = MaxItersList l \<and> length l = n_scales f \<longrightarrow>
            (\<forall>j < length calls. call_scale (calls ! j) = j \<and> call_max_iters (calls ! j) = l ! j))
       \<and> (\<forall>l. mi = MaxItersList l \<and> length l \<noteq> n_scales f \<longrightarrow>
            calls = [] \<and> (\<exists>e. r = Inl e))
       \<and> ((\<exists>x. r = Inr x) \<longrightarrow> length calls = n_scales f)
       \<and> (\<forall>l im images shapes gts. mi = MaxItersList l \<and> length l \<noteq> n_scales f \<and>
            prepare_image ops f image0 s0 gt crop = (im, Inr (images, shapes, gts)) \<and>
            shapes \<noteq> [] \<longrightarrow> r = Inl ConfigurationMismatch)"
proof -
  have cfg: "\<forall>l im images shapes gts. mi = MaxItersList l \<and> length l \<noteq> n_scales f \<and>
            prepare_image ops f image0 s0 gt crop = (im, Inr (images, shapes, gts)) \<and>
            shapes \<noteq> [] \<longrightarrow> r = Inl ConfigurationMismatch"
  proof (intro allI impI)
    fix l im images shapes gts
    assume a: "mi = MaxItersList l \<and> length l \<noteq> n_scales f \<and>
            prepare_image ops f image0 s0 gt crop = (im, Inr (images, shapes, gts)) \<and>
            shapes \<noteq> []"
    then have p: "prepare_image ops f image0 s0 gt crop = (im, Inr (images, shapes, gts))"
      and ne: "shapes \<noteq> []" by simp_all
    have ft: "fit f images (hd shapes) gts mi = ([], Inl ConfigurationMismatch)"
      using a by (simp add: fit_def check_max_iters_def)
    have "(image', calls, r) = (im, [], case Inl ConfigurationMismatch of Inl e \<Rightarrow> Inl e
                | Inr rs \<Rightarrow> Inr (FR im rs (AA (last shapes) s0) gt))"
      using fit_from_shape_unfold [OF p ne ft, of AA FR] assms by simp
    then show "r = Inl ConfigurationMismatch" by simp
  qed
  have triv: "(\<forall>k. mi = MaxItersInt k \<longrightarrow>
            (\<forall>j < length calls. call_scale (calls ! j) = j \<and> call_max_iters (calls ! j) = k))
       \<and> (\<forall>l. mi = MaxItersList l \<and> length l = n_scales f \<longrightarrow>
            (\<forall>j < length calls. call_scale (calls ! j) = j \<and> call_max_iters (calls ! j) = l ! j))
       \<and> (\<forall>l. mi = MaxItersList l \<and> length l \<noteq> n_scales f \<longrightarrow>
            calls = [] \<and> (\<exists>e. r = Inl e))
       \<and> ((\<exists>x. r = Inr x) \<longrightarrow> length calls = n_scales f)"
    if c: "calls = []" and e: "r = Inl e" for e
    unfolding c e by simp
  from fit_from_shape_calls[OF assms] have main: "(\<forall>k. mi = MaxItersInt k \<longrightarrow>
            (\<forall>j < length calls. call_scale (calls ! j) = j \<and> call_max_iters (calls ! j) = k))
       \<and> (\<forall>l. mi = MaxItersList l \<and> length l = n_scales f \<longrightarrow>
            (\<forall>j < length calls. call_scale (calls ! j) = j \<and> call_max_iters (calls ! j) = l ! j))
       \<and> (\<forall>l. mi = MaxItersList l \<and> length l \<noteq> n_scales f \<longrightarrow>
            calls = [] \<and> (\<exists>e. r = Inl e))
       \<and> ((\<exists>x. r = Inr x) \<longrightarrow> length calls = n_scales f)"
  proof
    assume "calls = [] \<and> (\<exists>e. r = Inl e)"
    then obtain e where "calls = []" "r = Inl e" by (elim exE conjE) (rule that)
    then show ?thesis by (rule triv)
  next
    assume "\<exists>images sh gts r'. fit f images sh gts mi = (calls, r') \<and>
             ((\<exists>x. r = Inr x) \<longrightarrow> (\<exists>x. r' = Inr x))"
    then obtain images sh gts r' where ft: "fit f images sh gts mi = (calls, r')"
      and rr: "(\<exists>x. r = Inr x) \<longrightarrow> (\<exists>x. r' = Inr x)"
      by (elim exE conjE) (rule that)
    from fit_calls[OF ft] show ?thesis
    proof
      assume "\<exists>e. check_max_iters mi (n_scales f) = Inl e \<and> calls = [] \<and> r' = Inl e"
      then obtain e where c: "calls = []" and r': "r' = Inl e"
        by (elim exE conjE) (rule that)
      from rr r' have "\<not> (\<exists>x. r = Inr x)" by simp
      then obtain e' where "r = Inl e'" by (cases r) simp_all
      with c show ?thesis by (rule triv)
    next
      assume "\<exists>budgets. check_max_iters mi (n_scales f) = Inr budgets \<and>
            length calls \<le> n_scales f \<and>
            (\<forall>j < length calls. call_scale (calls ! j) = j \<and>
               getitem budgets j = Inr (call_max_iters (calls ! j))) \<and>
            ((\<exists>x. r' = Inr x) \<longrightarrow> length calls = n_scales f)"
      then obtain budgets where b: "check_max_iters mi (n_scales f) = Inr budgets"
        "length calls \<le> n_scales f"
        "\<forall>j < length calls. call_scale (calls ! j) = j \<and>
               getitem budgets j = Inr (call_max_iters (calls ! j))"
        "(\<exists>x. r' = Inr x) \<longrightarrow> length calls = n_scales f"
        by (elim exE conjE) (rule that)
      have nth: "call_scale (calls ! j) = j \<and> j < length budgets \<and>
          call_max_iters (calls ! j) = budgets ! j" if "j < length calls" for j
      proof -
        from b(3) that have s: "call_scale (calls ! j) = j"
          and g: "getitem budgets j = Inr (call_max_iters (calls ! j))" by simp_all
        from g have "j < length budgets" by (simp add: getitem_def split: if_splits)
        moreover from g have "call_max_iters (calls ! j) = budgets ! j"
          by (simp add: getitem_def split: if_splits)
        ultimately show ?thesis using s by simp
      qed
      have c1: "\<forall>k. mi = MaxItersInt k \<longrightarrow>
            (\<forall>j < length calls. call_scale (calls ! j) = j \<and> call_max_iters (calls ! j) = k)"
      proof (intro allI impI)
        fix k j assume m: "mi = MaxItersInt k" and j: "j < length calls"
        from b(1) m have "budgets = replicate (n_scales f) k" by (simp add: check_max_iters_def)
        with nth[OF j] b(2) j show "call_scale (calls ! j) = j \<and> call_max_iters (calls ! j) = k"
          by simp
      qed
      have c2: "\<forall>l. mi = MaxItersList l \<and> length l = n_scales f \<longrightarrow>
            (\<forall>j < length calls. call_scale (calls ! j) = j \<and> call_max_iters (calls ! j) = l ! j)"
      proof (intro allI impI)
        fix l j assume m: "mi = MaxItersList l \<and> length l = n_scales f" and j: "j < length calls"
        from b(1) m have "budgets = l" by (simp add: check_max_iters_def)
        with nth[OF j] show "call_scale (calls ! j) = j \<and> call_max_iters (calls ! j) = l ! j"
          by simp
      qed
      have c3: "\<forall>l. mi = MaxItersList l \<and> length l \<noteq> n_scales f \<longrightarrow>
            calls = [] \<and> (\<exists>e. r = Inl e)"
      proof (intro allI impI)
        fix l assume m: "mi = MaxItersList l \<and> length l \<noteq> n_scales f"
        with b(1) have False by (simp add: check_max_iters_def)
        then show "calls = [] \<and> (\<exists>e. r = Inl e)" ..
      qed
      have c4: "(\<exists>x. r = Inr x) \<longrightarrow> length calls = n_scales f"
        using b(4) rr by simp
      show ?thesis by (rule conjI[OF c1 conjI[OF c2 conjI[OF c3 c4]]])
    qed
  qed
  from main cfg show ?thesis by (elim conjE) (intro conjI, assumption+)
qed

lemma rescale_trace:
  assumes srt: "sorted (scales f)" and pos: "\<forall>s \<in> set (scales f). 0 < s"
    and ft: "fit f images initial_shape gts mi = (calls, Inr results)"
  shows "length calls = n_scales f \<and> length results = n_scales f
       \<and> (\<forall>i. Suc i < n_scales f \<longrightarrow>
            call_shape (calls ! Suc i) =
              apply_transform (Scale (scales f ! Suc i / scales f ! i)) (final_shape (results ! i)))
       \<and> (0 < n_scales f \<longrightarrow>
            call_shape (calls ! 0) = initial_shape \<and>
            (\<exists>budgets. fit_loop f images gts budgets [0..<n_scales f] (initial_shape, [], []) =
               (calls, Inr (final_shape (last results), results))))"
proof -
  from ft obtain budgets sh' where
    l: "fit_loop f images gts budgets [0..<n_scales f] (initial_shape, [], []) =
          (calls, Inr (sh', results))"
    by (auto simp: fit_def split: sum.splits prod.splits)
  from fit_loop_shapes[OF l] obtain new nrs where
    n: "calls = [] @ new" "results = [] @ nrs" "length new = length [0..<n_scales f]"
     "length nrs = length [0..<n_scales f]"
     "[0..<n_scales f] \<noteq> [] \<longrightarrow> call_shape (hd new) = initial_shape"
     "\<forall>j. Suc j < length [0..<n_scales f] \<longrightarrow>
        next_scale_shape f ([0..<n_scales f] ! j) (final_shape (nrs ! j)) =
          Inr (call_shape (new ! Suc j))"
     "[0..<n_scales f] \<noteq> [] \<longrightarrow>
        next_scale_shape f (last [0..<n_scales f]) (final_shape (last nrs)) = Inr sh'"
    by (elim exE conjE) (rule that)
  have len: "length calls = n_scales f" "length results = n_scales f"
    using n(1-4) by auto
  have mid: "\<forall>i. Suc i < n_scales f \<longrightarrow>
            call_shape (calls ! Suc i) =
              apply_transform (Scale (scales f ! Suc i / scales f ! i)) (final_shape (results ! i))"
  proof (intro allI impI)
    fix i assume i: "Suc i < n_scales f"
    then have "next_scale_shape f i (final_shape (results ! i)) = Inr (call_shape (calls ! Suc i))"
      using n(1,2,6) by auto
    moreover have "next_scale_shape f i (final_shape (results ! i)) =
        Inr (apply_transform (Scale (scales f ! Suc i / scales f ! i)) (final_shape (results ! i)))"
      using next_scale_shape_not_final[OF srt pos] i by (simp add: n_scales_def)
    ultimately show "call_shape (calls ! Suc i) =
              apply_transform (Scale (scales f ! Suc i / scales f ! i)) (final_shape (results ! i))"
      by simp
  qed
  have fin: "0 < n_scales f \<longrightarrow>
            call_shape (calls ! 0) = initial_shape \<and>
            (\<exists>budgets. fit_loop f images gts budgets [0..<n_scales f] (initial_shape, [], []) =
               (calls, Inr (final_shape (last results), results)))"
  proof
    assume p: "0 < n_scales f"
    then have ne: "[0..<n_scales f] \<noteq> []" by simp
    have "new \<noteq> []" using n(3) p by auto
    then have c0: "call_shape (calls ! 0) = initial_shape"
      using n(1,5) ne by (simp add: hd_conv_nth)
    have "last [0..<n_scales f] = n_scales f - 1" using p by (simp add: last_upt)
    moreover have "Suc (n_scales f - 1) = length (scales f)" using p by (simp add: n_scales_def)
    ultimately have "next_scale_shape f (last [0..<n_scales f]) (final_shape (last nrs)) =
        Inr (final_shape (last nrs))"
      using next_scale_shape_final by simp
    with n(7) ne have "sh' = final_shape (last results)" using n(2) by simp
    with l c0 show "call_shape (calls ! 0) = initial_shape \<and>
            (\<exists>budgets. fit_loop f images gts budgets [0..<n_scales f] (initial_shape, [], []) =
               (calls, Inr (final_shape (last results), results)))" by auto
  qed
  show ?thesis by (rule conjI[OF len(1) conjI[OF len(2) conjI[OF mid fin]]])
qed

text \<open>
  C3. For every \<open>fit_from_shape\<close> call, with \<open>calls\<close> the runs of the per-scale
  algorithms it made: if \<open>max_iters\<close> is a single integer \<open>k\<close>, the \<open>j\<close>-th run is the run
  of scale \<open>j\<close> and receives budget \<open>k\<close>; if it is a list of length \<open>n_scales\<close>, the run of
  scale \<open>j\<close> receives \<open>max_iters[j]\<close>; if it is a list of any other length, no algorithm
  is run and the call fails, with the configuration error once the image has been
  prepared. Every run that is followed by another one returned a result. A call that
  returns normally has run all \<open>n_scales\<close> scales, and what it returns is the fitter
  result built from the list \<open>results\<close> in which \<open>results[j]\<close> is what \<open>algorithms[j].run\<close>
  returned for the \<open>j\<close>-th prepared image, the ground truth shape of that scale and the
  budget \<open>k\<close>, or \<open>max_iters[j]\<close>.
\<close>

theorem max_iters_budget_per_scale:
  assumes "fit_from_shape ops AA FR f image0 s0 mi gt crop = (image', calls, r)"
  shows "(\<forall>k. mi = MaxItersInt k \<longrightarrow>
            (\<forall>j < length calls. call_scale (calls ! j) = j \<and> call_max_iters (calls ! j) = k))
       \<and> (\<forall>l. mi = MaxItersList l \<and> length l = n_scales f \<longrightarrow>
            (\<forall>j < length calls. call_scale (calls ! j) = j \<and> call_max_iters (calls ! j) = l ! j))
       \<and> (\<forall>l. mi = MaxItersList l \<and> length l \<noteq> n_scales f \<longrightarrow>
            calls = [] \<and> (\<exists>e. r = Inl e))
       \<and> ((\<exists>x. r = Inr x) \<longrightarrow> length calls = n_scales f)
       \<and> (\<forall>l im images shapes gts. mi = MaxItersList l \<and> length l \<noteq> n_scales f \<and>
            prepare_image ops f image0 s0 gt crop = (im, Inr (images, shapes, gts)) \<and>
            shapes \<noteq> [] \<longrightarrow> r = Inl ConfigurationMismatch)
       \<and> (\<forall>j. Suc j < length calls \<longrightarrow>
            (\<exists>res. (algorithms f ! j) (call_image (calls ! j)) (call_shape (calls ! j))
                      (call_gt_shape (calls ! j)) (call_max_iters (calls ! j)) = Inr res))
       \<and> (\<forall>y. r = Inr y \<longrightarrow>
            (\<exists>images shapes gts results.
               prepare_image ops f image0 s0 gt crop = (image', Inr (images, shapes, gts)) \<and>
               y = FR image' results (AA (last shapes) s0) gt \<and>
               length results = n_scales f \<and>
               (\<forall>j < n_scales f.
                  call_image (calls ! j) = images ! j \<and>
                  call_max_iters (calls ! j) =
                    (case mi of MaxItersInt k \<Rightarrow> k | MaxItersList l \<Rightarrow> l ! j) \<and>
                  (algorithms f ! j) (images ! j) (call_shape (calls ! j))
                    (map_option (\<lambda>gs. gs ! j) gts)
                    (case mi of MaxItersInt k \<Rightarrow> k | MaxItersList l \<Rightarrow> l ! j) =
                  Inr (results ! j))))"
proof -
  note tr = max_iters_trace [OF assms]
  note er = fit_from_shape_earlier_runs [OF assms]
  have nr: "\<forall>y. r = Inr y \<longrightarrow>
            (\<exists>images shapes gts results.
               prepare_image ops f image0 s0 gt crop = (image', Inr (images, shapes, gts)) \<and>
               y = FR image' results (AA (last shapes) s0) gt \<and>
               length results = n_scales f \<and>
               (\<forall>j < n_scales f.
                  call_image (calls ! j) = images ! j \<and>
                  call_max_iters (calls ! j) =
                    (case mi of MaxItersInt k \<Rightarrow> k | MaxItersList l \<Rightarrow> l ! j) \<and>
                  (algorithms f ! j) (images ! j) (call_shape (calls ! j))
                    (map_option (\<lambda>gs. gs ! j) gts)
                    (case mi of MaxItersInt k \<Rightarrow> k | MaxItersList l \<Rightarrow> l ! j) =
                  Inr (results ! j)))"
  proof (intro allI impI)
    fix y assume "r = Inr y"
    with assms have "fit_from_shape ops AA FR f image0 s0 mi gt crop = (image', calls, Inr y)"
      by simp
    from fit_from_shape_normal [OF this] obtain images shapes gts results where
      p: "prepare_image ops f image0 s0 gt crop = (image', Inr (images, shapes, gts))"
      and ft: "fit f images (hd shapes) gts mi = (calls, Inr results)"
      and y: "y = FR image' results (AA (last shapes) s0) gt"
      by (elim exE conjE) (rule that)
    note fr = fit_runs [OF ft]
    have "prepare_image ops f image0 s0 gt crop = (image', Inr (images, shapes, gts)) \<and>
               y = FR image' results (AA (last shapes) s0) gt \<and>
               length results = n_scales f \<and>
               (\<forall>j < n_scales f.
                  call_image (calls ! j) = images ! j \<and>
                  call_max_iters (calls ! j) =
                    (case mi of MaxItersInt k \<Rightarrow> k | MaxItersList l \<Rightarrow> l ! j) \<and>
                  (algorithms f ! j) (images ! j) (call_shape (calls ! j))
                    (map_option (\<lambda>gs. gs ! j) gts)
                    (case mi of MaxItersInt k \<Rightarrow> k | MaxItersList l \<Rightarrow> l ! j) =
                  Inr (results ! j))"
      using p y fr by simp
    then show "\<exists>images shapes gts results.
               prepare_image ops f image0 s0 gt crop = (image', Inr (images, shapes, gts)) \<and>
               y = FR image' results (AA (last shapes) s0) gt \<and>
               length results = n_scales f \<and>
               (\<forall>j < n_scales f.
                  call_image (calls ! j) = images ! j \<and>
                  call_max_iters (calls ! j) =
                    (case mi of MaxItersInt k \<Rightarrow> k | MaxItersList l \<Rightarrow> l ! j) \<and>
                  (algorithms f ! j) (images ! j) (call_shape (calls ! j))
                    (map_option (\<lambda>gs. gs ! j) gts)
                    (case mi of MaxItersInt k \<Rightarrow> k | MaxItersList l \<Rightarrow> l ! j) =
                  Inr (results ! j))"
      by (intro exI)
  qed
  from tr er nr show ?thesis by (elim conjE) (intro conjI, assumption+)
qed

theorem max_iters_budget_per_scale_witness:
  "snd (fit_from_shape example_ops example_affine example_iters example_fitter example_image
          box_3_6 (MaxItersInt 3) None None) = (example_calls 3 3, Inr [3, 3]) \<and>
   snd (fit_from_shape example_ops example_affine example_iters example_fitter example_image
          box_3_6 (MaxItersList [3, 7]) None None) = (example_calls 3 7, Inr [3, 7]) \<and>
   snd (fit_from_shape example_ops example_affine example_iters example_fitter example_image
          box_3_6 (MaxItersList [3]) None None) = ([], Inl ConfigurationMismatch)"
  using max_iters_budget_per_scale [OF example_fit_from_shape_iters_int [of 3]]
    max_iters_budget_per_scale [OF example_fit_from_shape_iters_list [of 3 7]]
    max_iters_budget_per_scale [OF example_fit_from_shape_iters_mismatch [of 3]]
  by (simp add: example_fit_from_shape_iters_int example_fit_from_shape_iters_list
      example_fit_from_shape_iters_mismatch)

text \<open>
  C4. In \<open>_fit\<close>, when the scale factors are positive and non-decreasing, a call that
  returns normally has run every scale; \<open>results[0]\<close> is what \<open>algorithms[0].run\<close> returned
  for the initial shape, and for every scale \<open>i\<close> that is not the last \<open>results[i + 1]\<close> is
  what \<open>algorithms[i + 1].run\<close> returned for the \<open>final_shape\<close> of \<open>results[i]\<close> rescaled by
  \<open>scales[i + 1] / scales[i]\<close>. The shape the loop ends with is the \<open>final_shape\<close> of the
  last result, not rescaled.
\<close>

theorem rescale_between_scales:
  assumes srt: "sorted (scales f)" and pos: "\<forall>s \<in> set (scales f). 0 < s"
    and ft: "fit f images initial_shape gts mi = (calls, Inr results)"
  shows "length calls = n_scales f \<and> length results = n_scales f
       \<and> (\<forall>i. Suc i < n_scales f \<longrightarrow>
            call_shape (calls ! Suc i) =
              apply_transform (Scale (scales f ! Suc i / scales f ! i)) (final_shape (results ! i)))
       \<and> (0 < n_scales f \<longrightarrow>
            call_shape (calls ! 0) = initial_shape \<and>
            (\<exists>budgets. fit_loop f images gts budgets [0..<n_scales f] (initial_shape, [], []) =
               (calls, Inr (final_shape (last results), results))))
       \<and> (0 < n_scales f \<longrightarrow>
            (algorithms f ! 0) (images ! 0) initial_shape (map_option (\<lambda>gs. gs ! 0) gts)
              (case mi of MaxItersInt k \<Rightarrow> k | MaxItersList l \<Rightarrow> l ! 0) = Inr (results ! 0))
       \<and> (\<forall>i. Suc i < n_scales f \<longrightarrow>
            (algorithms f ! Suc i) (images ! Suc i)
              (apply_transform (Scale (scales f ! Suc i / scales f ! i))
                 (final_shape (results ! i)))
              (map_option (\<lambda>gs. gs ! Suc i) gts)
              (case mi of MaxItersInt k \<Rightarrow> k | MaxItersList l \<Rightarrow> l ! Suc i) =
            Inr (results ! Suc i))"
proof -
  note tr = rescale_trace [OF srt pos ft]
  note fr = fit_runs [OF ft]
  from tr have sh: "\<forall>i. Suc i < n_scales f \<longrightarrow>
            call_shape (calls ! Suc i) =
              apply_transform (Scale (scales f ! Suc i / scales f ! i)) (final_shape (results ! i))"
    and sh0: "0 < n_scales f \<longrightarrow> call_shape (calls ! 0) = initial_shape" by simp_all
  from fr have run: "\<forall>j < n_scales f.
        (algorithms f ! j) (images ! j) (call_shape (calls ! j))
            (map_option (\<lambda>gs. gs ! j) gts)
            (case mi of MaxItersInt k \<Rightarrow> k | MaxItersList l \<Rightarrow> l ! j) = Inr (results ! j)"
    by simp
  have first: "0 < n_scales f \<longrightarrow>
            (algorithms f ! 0) (images ! 0) initial_shape (map_option (\<lambda>gs. gs ! 0) gts)
              (case mi of MaxItersInt k \<Rightarrow> k | MaxItersList l \<Rightarrow> l ! 0) = Inr (results ! 0)"
  proof
    assume p: "0 < n_scales f"
    note run [rule_format, OF p]
    with sh0 p show "(algorithms f ! 0) (images ! 0) initial_shape
              (map_option (\<lambda>gs. gs ! 0) gts)
              (case mi of MaxItersInt k \<Rightarrow> k | MaxItersList l \<Rightarrow> l ! 0) = Inr (results ! 0)"
      by simp
  qed
  have later: "\<forall>i. Suc i < n_scales f \<longrightarrow>
            (algorithms f ! Suc i) (images ! Suc i)
              (apply_transform (Scale (scales f ! Suc i / scales f ! i))
                 (final_shape (results ! i)))
              (map_option (\<lambda>gs. gs ! Suc i) gts)
              (case mi of MaxItersInt k \<Rightarrow> k | MaxItersList l \<Rightarrow> l ! Suc i) =
            Inr (results ! Suc i)"
  proof (intro allI impI)
    fix i assume i: "Suc i < n_scales f"
    note run [rule_format, OF i]
    moreover from sh i have "call_shape (calls ! Suc i) =
        apply_transform (Scale (scales f ! Suc i / scales f ! i)) (final_shape (results ! i))"
      by simp
    ultimately show "(algorithms f ! Suc i) (images ! Suc i)
              (apply_transform (Scale (scales f ! Suc i / scales f ! i))
                 (final_shape (results ! i)))
              (map_option (\<lambda>gs. gs ! Suc i) gts)
              (case mi of MaxItersInt k \<Rightarrow> k | MaxItersList l \<Rightarrow> l ! Suc i) =
            Inr (results ! Suc i)"
      by simp
  qed
  from tr first later show ?thesis by (elim conjE) (intro conjI, assumption+)
qed

theorem rescale_between_scales_witness:
  "fit example_fitter example_pyramid box_half None (MaxItersInt 3) =
     (example_calls 3 3,
      Inr [\<lparr>final_shape = box_half, n_iters = 3\<rparr>,
           \<lparr>final_shape = apply_transform (Scale 2) box_half, n_iters = 3\<rparr>]) \<and>
   scales example_fitter = [1/2, 1]"
proof -
  have s: "sorted (scales example_fitter)" by (simp add: example_fitter_def)
  have p: "\<forall>s \<in> set (scales example_fitter). 0 < s" by (simp add: example_fitter_def)
  have sc: "scales example_fitter = [1/2, 1]" by (simp add: example_fitter_def)
  have n: "n_scales example_fitter = Suc (Suc 0)" by (simp add: n_scales_def example_fitter_def)
  show ?thesis
    using rescale_between_scales [OF s p example_fit_int [of 3]]
    by (simp add: example_fit_int example_calls_def sc n)
qed

section \<open>Frame of _prepare_image\<close>

lemma prepare_image_frame:
  assumes "prepare_image ops f image0 s0 gt crop = (image', Inr x)"
  shows "image' = image0\<lparr>landmarks :=
           (case gt of
              None \<Rightarrow> AList.delete ''__initial_shape'' (landmarks image0)
            | Some g \<Rightarrow> AList.delete ''__gt_shape''
                         (AList.delete ''__initial_shape'' (landmarks image0)))\<rparr>"
  using assms
  by (auto simp: prepare_image_def Let_def landmarks_delitem_def landmarks_setitem_def
      delete_update_same delete_update
      split: sum.splits option.splits if_splits)

lemma fit_from_shape_prepared:
  assumes "fit_from_shape ops AA FR f image0 s0 mi gt crop = (image', calls, Inr y)"
  shows "\<exists>x. prepare_image ops f image0 s0 gt crop = (image', Inr x)"
proof (cases "prepare_image ops f image0 s0 gt crop")
  case (Pair im pr)
  show ?thesis
  proof (cases pr)
    case (Inl e)
    have "(image', calls, Inr y) = (im, [], Inl e)"
      using Pair Inl assms [symmetric] by (simp add: fit_from_shape_def)
    then show ?thesis by simp
  next
    case (Inr t)
    have "image' = im"
      using Pair Inr assms
      by (simp add: fit_from_shape_def Let_def split: prod.splits if_splits sum.splits)
    with Pair Inr have "prepare_image ops f image0 s0 gt crop = (image', Inr t)" by simp
    then show ?thesis by (rule exI)
  qed
qed

lemma example_prepare_image_tagged:
  "prepare_image example_ops example_fitter tagged_image box_3_6 None None =
     (example_image, Inr (example_pyramid, [box_half, box_3_6], None))"
  by (simp add: prepare_image_def example_ops_def example_fitter_def example_image_def
      tagged_image_def example_pyramid_def box_half_def box_3_6_def n_scales_def getitem_def
      landmarks_setitem_def landmarks_getitem_def landmarks_delitem_def
      apply_transform_def Scale_def Let_def)

lemma example_prepare_image_gt:
  "prepare_image example_ops example_fitter example_image box_3_6 (Some box_3_6) None =
     (example_image, Inr (gt_pyramid, [box_half, box_3_6], Some [box_half, box_3_6]))"
  by (simp add: prepare_image_def example_ops_def example_fitter_def example_image_def
      gt_pyramid_def box_half_def box_3_6_def n_scales_def getitem_def
      landmarks_setitem_def landmarks_getitem_def landmarks_delitem_def
      apply_transform_def Scale_def Let_def)

text \<open>
  C9, as stated: the landmark mapping after a normal return equals the mapping before.
  Not so for an image that already has a group named \<open>'__initial_shape'\<close>: line 320
  replaces it and line 364 deletes it, so the group the image had is gone after the
  call.
\<close>

theorem preexisting_initial_shape_group_removed:
  "fit_from_shape example_ops example_affine example_result example_fitter tagged_image
       box_3_6 (MaxItersInt 3) None None =
     (example_image, example_calls 3 3, Inr [box_half, box_3_6]) \<and>
   landmarks tagged_image = [(''PTS'', box_3_6), (''__initial_shape'', unit_square)] \<and>
   landmarks example_image = [(''PTS'', box_3_6)]"
proof -
  have "fit_from_shape example_ops example_affine example_result example_fitter tagged_image
       box_3_6 (MaxItersInt 3) None None =
     (example_image, example_calls 3 3, Inr [box_half, box_3_6])"
    by (simp add: fit_from_shape_def example_prepare_image_tagged example_fit_int
        example_result_def)
  moreover have "landmarks tagged_image =
      [(''PTS'', box_3_6), (''__initial_shape'', unit_square)]"
    by (simp add: tagged_image_def)
  moreover have "landmarks example_image = [(''PTS'', box_3_6)]"
    by (simp add: example_image_def)
  ultimately show ?thesis by simp
qed

text \<open>
  C9, amended: after a normal return of \<open>_prepare_image\<close> or \<open>fit_from_shape\<close> the image is
  the image before the call with the group \<open>'__initial_shape'\<close> and, when \<open>gt_shape\<close> is
  given, the group \<open>'__gt_shape'\<close> removed from its landmark mapping; every other group is
  kept, with its value and its position. For an image that had neither group, the image
  after the call equals the image before.
\<close>

theorem transient_groups_deleted:
  assumes "(\<exists>x. prepare_image ops f image0 initial_shape gt_shape crop_image = (image', Inr x)) \<or>
           (\<exists>calls y. fit_from_shape ops AlignmentAffine fitter_result f image0 initial_shape
                         max_iters gt_shape crop_image = (image', calls, Inr y))"
  shows "image' = image0\<lparr>landmarks :=
           (case gt_shape of
              None \<Rightarrow> AList.delete ''__initial_shape'' (landmarks image0)
            | Some g \<Rightarrow> AList.delete ''__gt_shape''
                         (AList.delete ''__initial_shape'' (landmarks image0)))\<rparr> \<and>
         (''__initial_shape'' \<notin> fst ` set (landmarks image0) \<and>
          (gt_shape = None \<or> ''__gt_shape'' \<notin> fst ` set (landmarks image0))
            \<longrightarrow> image' = image0)"
proof -
  from assms obtain x where
    p: "prepare_image ops f image0 initial_shape gt_shape crop_image = (image', Inr x)"
    using fit_from_shape_prepared by (elim disjE exE) (assumption, fast)
  have eq: "image' = image0\<lparr>landmarks :=
           (case gt_shape of
              None \<Rightarrow> AList.delete ''__initial_shape'' (landmarks image0)
            | Some g \<Rightarrow> AList.delete ''__gt_shape''
                         (AList.delete ''__initial_shape'' (landmarks image0)))\<rparr>"
    by (rule prepare_image_frame [OF p])
  have "image' = image0"
    if "''__initial_shape'' \<notin> fst ` set (landmarks image0)"
      and "gt_shape = None \<or> ''__gt_shape'' \<notin> fst ` set (landmarks image0)"
    using that eq by (cases gt_shape) (simp_all add: delete_id)
  with eq show ?thesis by simp
qed

theorem transient_groups_deleted_witness:
  "fst (prepare_image example_ops example_fitter example_image box_3_6 (Some box_3_6) None) =
     example_image \<and>
   fst (fit_from_shape example_ops example_affine example_result example_fitter example_image
          box_3_6 (MaxItersInt 3) None None) = example_image \<and>
   fst (prepare_image example_ops example_fitter tagged_image box_3_6 None None) =
     tagged_image\<lparr>landmarks := [(''PTS'', box_3_6)]\<rparr>"
proof -
  have a: "(\<exists>x. prepare_image example_ops example_fitter example_image box_3_6 (Some box_3_6)
                  None = (example_image, Inr x)) \<or>
           (\<exists>calls y. fit_from_shape example_ops example_affine example_result example_fitter
                         example_image box_3_6 (MaxItersInt 3) (Some box_3_6) None =
                       (example_image, calls, Inr y))"
    by (simp add: example_prepare_image_gt)
  have b: "(\<exists>x. prepare_image example_ops example_fitter example_image box_3_6 None None =
                  (example_image, Inr x)) \<or>
           (\<exists>calls y. fit_from_shape example_ops example_affine example_result example_fitter
                         example_image box_3_6 (MaxItersInt 3) None None =
                       (example_image, calls, Inr y))"
    by (simp add: example_fit_from_shape_int)
  have c: "(\<exists>x. prepare_image example_ops example_fitter tagged_image box_3_6 None None =
                  (example_image, Inr x)) \<or>
           (\<exists>calls y. fit_from_shape example_ops example_affine example_result example_fitter
                         tagged_image box_3_6 (MaxItersInt 3) None None =
                       (example_image, calls, Inr y))"
    by (simp add: example_prepare_image_tagged)
  have d: "AList.delete ''__initial_shape'' (landmarks tagged_image) = [(''PTS'', box_3_6)]"
    by (simp add: tagged_image_def)
  show ?thesis
    using transient_groups_deleted [OF a] transient_groups_deleted [OF b]
      transient_groups_deleted [OF c]
    by (simp add: example_prepare_image_gt example_fit_from_shape_int
        example_prepare_image_tagged d)
qed

section \<open>Properties of generate_perturbations_from_gt\<close>






































text \<open>
  C8. With a glob that matches no landmark group of the first image, the call raises the
  \<open>ValueError\<close> that names the glob, and every image, with its landmark mapping, and the
  state of the perturbation function are as they were before the call.
\<close>

theorem empty_glob_raises_before_mutation:
  assumes "items_matching fnmatch (landmarks im0) g = []"
  shows "generate_perturbations_from_gt pf fnmatch (im0 # rest) N gt_group (Some g) st =
     ((im0 # rest, st),
      Inl (ValueError
        (''Must provide a valid bounding box glob - no bounding boxes matched the following glob: ''
         @ g)))"
  using assms
  by (simp add: generate_perturbations_from_gt_def getitem_def bb_generator_def)

theorem empty_glob_raises_before_mutation_witness:
  "generate_perturbations_from_gt example_perturb example_fnmatch [example_image, tagged_image]
     2 (Some ''PTS'') (Some ''bb_*'') 0 =
   (([example_image, tagged_image], 0),
    Inl (ValueError
      ''Must provide a valid bounding box glob - no bounding boxes matched the following glob: bb_*''))"
proof -
  have a: "items_matching example_fnmatch (landmarks example_image) ''bb_*'' = []"
    by (simp add: items_matching_def example_fnmatch_def example_image_def)
  show ?thesis
    using empty_glob_raises_before_mutation
      [OF a, of example_perturb "[tagged_image]" 2 "Some ''PTS''" 0]
    by simp
qed

end
